theory Spec2Isabelle
  imports Main "HOL-Library.Multiset"
begin

section \<open>JavaScript values and coercions used by the handlers\<close>

text \<open>
  The handlers of \<^verbatim>\<open>src/backend.js\<close> (and their copies in \<^verbatim>\<open>src/unnamed/part_000\<close>, which
  adds the auth endpoints) read the path parameter \<^verbatim>\<open>request.params.id\<close>, a string, and the
  fields of the JSON body. Text fields of a body (location, date, time, name, contact) are
  \<open>string option\<close>: \<open>None\<close> is a field that is absent or \<^verbatim>\<open>null\<close>. The field
  \<^verbatim>\<open>playersNeeded\<close> is a scalar \<open>jsval\<close>, since the code applies both \<^verbatim>\<open>!\<close> and
  \<^verbatim>\<open>parseInt\<close> to it. A number \<open>JNum n\<close> is a double whose value is the integer \<open>n\<close>;
  characters are code units below 256.
\<close>

datatype jsval = JUndefined | JNull | JBool bool | JNum int | JStr string

fun truthy :: "jsval \<Rightarrow> bool" where
  "truthy JUndefined = False"
| "truthy JNull = False"
| "truthy (JBool b) = b"
| "truthy (JNum n) = (n \<noteq> 0)"
| "truthy (JStr s) = (s \<noteq> [])"

text \<open>\<^verbatim>\<open>!x\<close> for a text field: absent, \<^verbatim>\<open>null\<close> and the empty string are falsy.\<close>

definition falsy :: "string option \<Rightarrow> bool" where
  "falsy x = (case x of None \<Rightarrow> True | Some s \<Rightarrow> s = [])"

definition text_of :: "string option \<Rightarrow> string" where
  "text_of x = (case x of None \<Rightarrow> [] | Some s \<Rightarrow> s)"

subsection \<open>parseInt\<close>

text \<open>
  \<^verbatim>\<open>parseInt(string)\<close> with no radix (ECMAScript): leading white space is dropped, one sign
  is read, a prefix \<^verbatim>\<open>0x\<close>/\<^verbatim>\<open>0X\<close> switches to radix 16, and the longest prefix of digits
  of the radix is the value; with no digit the result is \<^verbatim>\<open>NaN\<close>, here \<open>None\<close>.
  The result is kept as an exact integer (a double rounds it above \<open>2^53\<close>, far outside
  the range of the store's INTEGER columns).
\<close>

definition is_space :: "char \<Rightarrow> bool" where
  "is_space c = ((of_char c :: nat) \<in> {9, 10, 11, 12, 13, 32, 160})"


text \<open>The value of a character as a digit of the radix, letters in either case.\<close>

definition digit_of :: "nat \<Rightarrow> char \<Rightarrow> nat option" where
  "digit_of radix c =
     (let n = (of_char c :: nat);
          v = (if 48 \<le> n \<and> n \<le> 57 then Some (n - 48)
               else if 97 \<le> n \<and> n \<le> 122 then Some (n - 87)
               else if 65 \<le> n \<and> n \<le> 90 then Some (n - 55)
               else None)
      in case v of None \<Rightarrow> None | Some d \<Rightarrow> if d < radix then Some d else None)"

fun digits_prefix :: "nat \<Rightarrow> string \<Rightarrow> nat list" where
  "digits_prefix radix [] = []"
| "digits_prefix radix (c # cs) =
     (case digit_of radix c of None \<Rightarrow> [] | Some d \<Rightarrow> d # digits_prefix radix cs)"

definition parseInt_string :: "string \<Rightarrow> int option" where
  "parseInt_string inputString =
     (let S0 = dropWhile is_space inputString;
          sign = (if S0 \<noteq> [] \<and> hd S0 = CHR ''-'' then - 1 else (1 :: int));
          S1 = (if S0 \<noteq> [] \<and> (hd S0 = CHR ''+'' \<or> hd S0 = CHR ''-'') then tl S0 else S0);
          hex = (take 2 S1 = ''0x'' \<or> take 2 S1 = ''0X'');
          R = (if hex then 16 else 10);
          S2 = (if hex then drop 2 S1 else S1);
          Z = digits_prefix R S2
      in if Z = [] then None else Some (sign * int (foldl (\<lambda>a d. a * R + d) 0 Z)))"

text \<open>
  \<^verbatim>\<open>parseInt(v)\<close> first takes \<^verbatim>\<open>String(v)\<close>. An integer of magnitude below \<open>10^21\<close> prints
  as its decimal numeral. From \<open>10^21\<close> on it prints in exponent notation
  (\<^verbatim>\<open>1.5e+21\<close>), with the shortest numeral that rounds to the double, and \<^verbatim>\<open>parseInt\<close>
  reads its first digit. All the values that round to a double \<open>x\<close> start with the
  digit of \<open>x\<close> itself, unless the next numeral of one digit above \<open>x\<close> rounds to \<open>x\<close>
  (it lies within half a unit in the last place, a tie going to the even mantissa);
  then that one digit is the numeral. \<^verbatim>\<open>"true"\<close>, \<^verbatim>\<open>"false"\<close>, \<^verbatim>\<open>"null"\<close> and
  \<^verbatim>\<open>"undefined"\<close> start with no digit.
\<close>

fun floor_log10 :: "nat \<Rightarrow> nat" where
  "floor_log10 n = (if n < 10 then 0 else Suc (floor_log10 (n div 10)))"

fun floor_log2 :: "nat \<Rightarrow> nat" where
  "floor_log2 n = (if n < 2 then 0 else Suc (floor_log2 (n div 2)))"

declare floor_log10.simps [simp del] floor_log2.simps [simp del]

definition first_digit :: "nat \<Rightarrow> nat" where
  "first_digit x =
     (let j = floor_log10 x;
          L = x div 10 ^ j;
          up = (L + 1) * 10 ^ j;
          ulp = 2 ^ (floor_log2 x - 52)
      in if 2 * (up - x) < ulp \<or> (2 * (up - x) = ulp \<and> even (x div ulp))
         then (if L = 9 then 1 else L + 1)
         else L)"

definition parseInt :: "jsval \<Rightarrow> int option" where
  "parseInt v =
     (case v of
        JStr s \<Rightarrow> parseInt_string s
      | JNum n \<Rightarrow> if \<bar>n\<bar> < 10 ^ 21 then Some n else Some (sgn n * int (first_digit (nat \<bar>n\<bar>)))
      | _ \<Rightarrow> None)"

section \<open>The store: the tables of the schema\<close>

text \<open>
  The schema (the SQL at the end of \<^verbatim>\<open>src/DEPLOYMENT_GUIDE.md\<close>): table \<^verbatim>\<open>matches\<close> with a
  SERIAL primary key and \<^verbatim>\<open>CHECK (players_needed > 0 AND players_needed <= 20)\<close>; table
  \<^verbatim>\<open>players\<close> with a SERIAL primary key, a foreign key \<^verbatim>\<open>match_id\<close> to \<^verbatim>\<open>matches(id)\<close>
  (ON DELETE CASCADE) and a unique index on \<^verbatim>\<open>(match_id, name)\<close>. Timestamps are readings
  of the store's clock, a natural number handed to each operation.
\<close>

record match_row =
  m_id :: int
  location :: string
  date :: string
  time :: "string option"
  players_needed :: int
  creator_name :: string
  creator_contact :: string
  created_at :: nat

record player_row =
  p_id :: int
  match_id :: int
  name :: string
  contact :: string
  joined_at :: nat

record store =
  matches :: "match_row list"
  players :: "player_row list"
  matches_id_seq :: int
  players_id_seq :: int

definition empty_store :: store where
  "empty_store = \<lparr>matches = [], players = [], matches_id_seq = 0, players_id_seq = 0\<rparr>"

text \<open>
  A rejected query (the promise of \<^verbatim>\<open>pool.query\<close> rejects) is a value, by SQLSTATE class:
  22 (a parameter or value the column type refuses) and 23 (a constraint).
\<close>

datatype pg_error = DataException | IntegrityViolation

text \<open>
  The input functions of the column types. The driver sends every parameter as text.
  An INTEGER parameter must be the text of an integer that fits 32 bits (\<^verbatim>\<open>NaN\<close> is
  not); a text parameter has no NUL character; a value stored in VARCHAR(255) has at most
  255 characters (excess spaces are cut, any other excess is an error). The parsers
  of DATE and TIME are the store's own and are taken as parameters.
\<close>

definition int4_in :: "int option \<Rightarrow> pg_error + int" where
  "int4_in v =
     (case v of
        None \<Rightarrow> Inl DataException
      | Some n \<Rightarrow> if - (2 ^ 31) \<le> n \<and> n < 2 ^ 31 then Inr n else Inl DataException)"

text \<open>A text parameter the store accepts: it holds no NUL character.\<close>

definition pg_text :: "string \<Rightarrow> bool" where
  "pg_text x = (\<not> list_ex (\<lambda>c. (of_char c :: nat) = 0) x)"

definition text_in :: "string \<Rightarrow> pg_error + string" where
  "text_in s = (if pg_text s then Inr s else Inl DataException)"

definition varchar255 :: "string \<Rightarrow> pg_error + string" where
  "varchar255 s =
     (if length s \<le> 255 then Inr s
      else if list_all (\<lambda>c. c = CHR '' '') (drop 255 s) then Inr (take 255 s)
      else Inl DataException)"

record pgtypes =
  date_in :: "string \<Rightarrow> string option"
  time_in :: "string \<Rightarrow> string option"

section \<open>The queries\<close>

subsection \<open>Reading a match with its players\<close>

text \<open>
  \<^verbatim>\<open>FROM matches m LEFT JOIN players p ON p.match_id = m.id\<close>: a match with no player
  keeps one row, whose player columns are NULL.
\<close>

definition left_join_players :: "store \<Rightarrow> match_row \<Rightarrow> player_row option list" where
  "left_join_players s m =
     (case filter (\<lambda>p. match_id p = m_id m) (players s) of
        [] \<Rightarrow> [None]
      | ps \<Rightarrow> map Some ps)"

text \<open>\<^verbatim>\<open>COUNT(p.id)\<close> counts the rows of the group whose \<^verbatim>\<open>p.id\<close> is not NULL.\<close>

definition count_p_id :: "player_row option list \<Rightarrow> nat" where
  "count_p_id g = length (filter (\<lambda>r. r \<noteq> None) g)"

text \<open>
  The capacity query of the join handler. \<^verbatim>\<open>GROUP BY m.id\<close> makes one group for each
  match row, \<^verbatim>\<open>m.id\<close> being the primary key.
\<close>

definition q_match_count :: "store \<Rightarrow> int option \<Rightarrow> pg_error + (match_row \<times> nat) list" where
  "q_match_count s matchId =
     (case int4_in matchId of
        Inl e \<Rightarrow> Inl e
      | Inr k \<Rightarrow>
          Inr (map (\<lambda>m. (m, count_p_id (left_join_players s m)))
                 (filter (\<lambda>m. m_id m = k) (matches s))))"

record player_json =
  pj_name :: string
  pj_contact :: string
  joinedAt :: nat

record creator_json =
  cj_name :: string
  cj_contact :: string

record aggregate =
  agg_row :: match_row
  creator :: creator_json
  agg_players :: "player_json list"

text \<open>
  \<^verbatim>\<open>json_agg(json_build_object(...) ORDER BY p.joined_at) FILTER (WHERE p.id IS NOT NULL)\<close>
  is NULL over no row; \<^verbatim>\<open>COALESCE(..., '[]')\<close> turns that NULL into the empty array.
  Rows with equal \<^verbatim>\<open>joined_at\<close> keep the table's order here (SQL leaves it open).
\<close>

definition to_player_json :: "player_row \<Rightarrow> player_json" where
  "to_player_json p = \<lparr>pj_name = name p, pj_contact = contact p, joinedAt = joined_at p\<rparr>"

definition json_agg_players :: "player_row option list \<Rightarrow> player_json list option" where
  "json_agg_players g =
     (case List.map_filter (\<lambda>r. r) g of
        [] \<Rightarrow> None
      | ps \<Rightarrow> Some (map to_player_json (sort_key joined_at ps)))"

definition coalesce_players :: "player_json list option \<Rightarrow> player_json list" where
  "coalesce_players v = (case v of None \<Rightarrow> [] | Some ps \<Rightarrow> ps)"

definition aggregate_of :: "store \<Rightarrow> match_row \<Rightarrow> aggregate" where
  "aggregate_of s m =
     \<lparr>agg_row = m,
      creator = \<lparr>cj_name = creator_name m, cj_contact = creator_contact m\<rparr>,
      agg_players = coalesce_players (json_agg_players (left_join_players s m))\<rparr>"

text \<open>
  The query of \<^verbatim>\<open>GET /matches\<close>, \<^verbatim>\<open>ORDER BY m.created_at DESC\<close> (rows with equal
  \<^verbatim>\<open>created_at\<close> in the reverse of the table's order here).
\<close>

definition q_aggregates :: "store \<Rightarrow> aggregate list" where
  "q_aggregates s = map (aggregate_of s) (rev (sort_key created_at (matches s)))"

text \<open>The same aggregate \<^verbatim>\<open>WHERE m.id = $1\<close>.\<close>

definition q_aggregate :: "store \<Rightarrow> int option \<Rightarrow> pg_error + aggregate list" where
  "q_aggregate s matchId =
     (case int4_in matchId of
        Inl e \<Rightarrow> Inl e
      | Inr k \<Rightarrow> Inr (map (aggregate_of s) (filter (\<lambda>m. m_id m = k) (matches s))))"

subsection \<open>Players\<close>

text \<open>\<^verbatim>\<open>SELECT * FROM players WHERE match_id = $1 AND name = $2\<close>\<close>

definition q_existing_player :: "store \<Rightarrow> int option \<Rightarrow> string \<Rightarrow> pg_error + player_row list" where
  "q_existing_player s matchId nm =
     (case int4_in matchId of
        Inl e \<Rightarrow> Inl e
      | Inr k \<Rightarrow>
          (case text_in nm of
             Inl e \<Rightarrow> Inl e
           | Inr n \<Rightarrow> Inr (filter (\<lambda>p. match_id p = k \<and> name p = n) (players s))))"

text \<open>
  \<^verbatim>\<open>INSERT INTO players (match_id, name, contact) VALUES ($1, $2, $3)\<close>. The parameters
  are read first and the texts are cut to VARCHAR(255); a text that is too long stops
  the statement there. Then the row takes the next value of the id sequence, and the
  unique index and the foreign key are checked. A statement that fails on a constraint
  after taking a sequence value does not give it back.
\<close>

definition q_insert_player ::
  "store \<Rightarrow> nat \<Rightarrow> int option \<Rightarrow> string \<Rightarrow> string \<Rightarrow> (pg_error + unit) \<times> store" where
  "q_insert_player s now matchId nm ct =
     (case int4_in matchId of
        Inl e \<Rightarrow> (Inl e, s)
      | Inr k \<Rightarrow>
     (case text_in nm of
        Inl e \<Rightarrow> (Inl e, s)
      | Inr n0 \<Rightarrow>
     (case text_in ct of
        Inl e \<Rightarrow> (Inl e, s)
      | Inr c0 \<Rightarrow>
     (case varchar255 n0 of
        Inl e \<Rightarrow> (Inl e, s)
      | Inr n \<Rightarrow>
     (case varchar255 c0 of
        Inl e \<Rightarrow> (Inl e, s)
      | Inr c \<Rightarrow>
     (if players_id_seq s + 1 \<ge> 2 ^ 31 then (Inl DataException, s)
      else
        let s1 = s\<lparr>players_id_seq := players_id_seq s + 1\<rparr> in
          if list_ex (\<lambda>p. match_id p = k \<and> name p = n) (players s1)
            then (Inl IntegrityViolation, s1)
          else if \<not> list_ex (\<lambda>m. m_id m = k) (matches s1)
            then (Inl IntegrityViolation, s1)
          else
            (Inr (),
             s1\<lparr>players := players s1 @
                  [\<lparr>p_id = players_id_seq s1, match_id = k, name = n, contact = c,
                    joined_at = now\<rparr>]\<rparr>)))))))"

text \<open>\<^verbatim>\<open>DELETE FROM players WHERE match_id = $1 AND name = $2 RETURNING *\<close>\<close>

definition q_delete_player ::
  "store \<Rightarrow> int option \<Rightarrow> string \<Rightarrow> pg_error + (player_row list \<times> store)" where
  "q_delete_player s matchId nm =
     (case int4_in matchId of
        Inl e \<Rightarrow> Inl e
      | Inr k \<Rightarrow>
          (case text_in nm of
             Inl e \<Rightarrow> Inl e
           | Inr n \<Rightarrow>
               Inr (filter (\<lambda>p. match_id p = k \<and> name p = n) (players s),
                    s\<lparr>players := filter (\<lambda>p. \<not> (match_id p = k \<and> name p = n)) (players s)\<rparr>)))"

text \<open>\<^verbatim>\<open>DELETE FROM players WHERE match_id = $1\<close>\<close>

definition q_delete_players_of :: "store \<Rightarrow> int option \<Rightarrow> pg_error + store" where
  "q_delete_players_of s matchId =
     (case int4_in matchId of
        Inl e \<Rightarrow> Inl e
      | Inr k \<Rightarrow> Inr (s\<lparr>players := filter (\<lambda>p. match_id p \<noteq> k) (players s)\<rparr>))"

subsection \<open>Matches\<close>

text \<open>
  \<^verbatim>\<open>DELETE FROM matches WHERE id = $1 RETURNING *\<close>; the foreign key's
  ON DELETE CASCADE removes the players that still reference a deleted match.
\<close>

definition q_delete_match :: "store \<Rightarrow> int option \<Rightarrow> pg_error + (match_row list \<times> store)" where
  "q_delete_match s matchId =
     (case int4_in matchId of
        Inl e \<Rightarrow> Inl e
      | Inr k \<Rightarrow>
          Inr (filter (\<lambda>m. m_id m = k) (matches s),
               s\<lparr>matches := filter (\<lambda>m. m_id m \<noteq> k) (matches s),
                 players :=
                   (if list_ex (\<lambda>m. m_id m = k) (matches s)
                    then filter (\<lambda>p. match_id p \<noteq> k) (players s)
                    else players s)\<rparr>))"

text \<open>
  \<^verbatim>\<open>INSERT INTO matches (location, date, time, players_needed, creator_name,
  creator_contact) VALUES ($1, ..., $6) RETURNING *\<close>. \<^verbatim>\<open>created_at\<close> takes its default,
  the clock. As for a player, the texts are cut to VARCHAR(255) before the row takes its
  id. The CHECK on \<^verbatim>\<open>players_needed\<close> is the storage-level range check.
\<close>

definition q_insert_match ::
  "pgtypes \<Rightarrow> store \<Rightarrow> nat \<Rightarrow> string \<Rightarrow> string \<Rightarrow> string option \<Rightarrow> int option \<Rightarrow> string \<Rightarrow> string
     \<Rightarrow> (pg_error + match_row) \<times> store" where
  "q_insert_match pg s now loc d t pn cn cc =
     (case text_in loc of
        Inl e \<Rightarrow> (Inl e, s)
      | Inr l0 \<Rightarrow>
     (case (case text_in d of Inl e \<Rightarrow> None | Inr d0 \<Rightarrow> date_in pg d0) of
        None \<Rightarrow> (Inl DataException, s)
      | Some dv \<Rightarrow>
     (case (case t of
              None \<Rightarrow> Some None
            | Some t0 \<Rightarrow>
                (case text_in t0 of
                   Inl e \<Rightarrow> None
                 | Inr t1 \<Rightarrow> (case time_in pg t1 of None \<Rightarrow> None | Some tv \<Rightarrow> Some (Some tv)))) of
        None \<Rightarrow> (Inl DataException, s)
      | Some tv \<Rightarrow>
     (case int4_in pn of
        Inl e \<Rightarrow> (Inl e, s)
      | Inr k \<Rightarrow>
     (case text_in cn of
        Inl e \<Rightarrow> (Inl e, s)
      | Inr cn0 \<Rightarrow>
     (case text_in cc of
        Inl e \<Rightarrow> (Inl e, s)
      | Inr cc0 \<Rightarrow>
     (case varchar255 l0 of
        Inl e \<Rightarrow> (Inl e, s)
      | Inr l \<Rightarrow>
     (case varchar255 cn0 of
        Inl e \<Rightarrow> (Inl e, s)
      | Inr cn1 \<Rightarrow>
     (case varchar255 cc0 of
        Inl e \<Rightarrow> (Inl e, s)
      | Inr cc1 \<Rightarrow>
     (if matches_id_seq s + 1 \<ge> 2 ^ 31 then (Inl DataException, s)
      else
        let s1 = s\<lparr>matches_id_seq := matches_id_seq s + 1\<rparr> in
          if \<not> (k > 0 \<and> k \<le> 20) then (Inl IntegrityViolation, s1)
          else
            let row = \<lparr>m_id = matches_id_seq s1, location = l, date = dv, time = tv,
                        players_needed = k, creator_name = cn1, creator_contact = cc1,
                        created_at = now\<rparr>
            in (Inr row, s1\<lparr>matches := matches s1 @ [row]\<rparr>)))))))))))"

section \<open>The handlers\<close>

text \<open>
  A handler takes the store, the path parameter and the body (\<open>None\<close>: the request has
  no body, so \<^verbatim>\<open>request.body\<close> is undefined and destructuring it throws inside the
  \<^verbatim>\<open>try\<close>). It returns the reply, a status code (200 unless \<^verbatim>\<open>reply.code\<close> was called)
  with a payload, and the store it leaves. Every exception, a rejected query included,
  lands in the handler's \<^verbatim>\<open>catch\<close>, which answers 500. The store is taken to be
  reachable: a query is rejected only for its parameters or for a constraint.
\<close>

record created_json =
  cr_id :: int
  cr_location :: string
  cr_date :: string
  cr_time :: "string option"
  playersNeeded :: int
  cr_creator :: creator_json
  cr_players :: "player_json list"
  createdAt :: nat

text \<open>
  A row of \<^verbatim>\<open>users\<close> as \<^verbatim>\<open>getUserFromToken\<close> selects it:
  \<^verbatim>\<open>SELECT id, username, name, contact FROM users WHERE id = $1\<close>.
\<close>

record user_row =
  u_id :: int
  username :: string
  u_name :: string
  u_contact :: string

datatype payload =
    Aggregates "aggregate list"
  | AggregateBody aggregate
  | Created created_json
  | Message string
  | ErrorBody string
  | UserBody user_row
  | SuccessBody
  | NoBody

type_synonym reply = "nat \<times> payload"

record join_body =
  jb_name :: "string option"
  jb_contact :: "string option"

record leave_body =
  lb_name :: "string option"

record creator_body =
  cb_name :: "string option"
  cb_contact :: "string option"

record match_body =
  mb_location :: "string option"
  mb_date :: "string option"
  mb_time :: "string option"
  mb_playersNeeded :: jsval
  mb_creator :: "creator_body option"

text \<open>\<^verbatim>\<open>GET /matches\<close>\<close>

definition get_matches :: "store \<Rightarrow> reply" where
  "get_matches s = (200, Aggregates (q_aggregates s))"

text \<open>\<^verbatim>\<open>GET /matches/:id\<close>\<close>

definition get_match :: "store \<Rightarrow> string \<Rightarrow> reply" where
  "get_match s ident =
     (let matchId = parseInt (JStr ident) in
      case q_aggregate s matchId of
        Inl e \<Rightarrow> (500, ErrorBody ''Failed to fetch match'')
      | Inr [] \<Rightarrow> (404, ErrorBody ''Match not found'')
      | Inr (a # _) \<Rightarrow> (200, AggregateBody a))"

text \<open>
  \<^verbatim>\<open>POST /matches\<close>. \<open>mb_creator = None\<close> is a creator that is no object: a falsy one
  stops at \<^verbatim>\<open>!creator\<close>, any other at \<^verbatim>\<open>!creator.name\<close>, with the same reply.
\<close>

definition post_matches :: "pgtypes \<Rightarrow> store \<Rightarrow> nat \<Rightarrow> match_body option \<Rightarrow> reply \<times> store" where
  "post_matches pg s now body =
     (case body of
        None \<Rightarrow> ((500, ErrorBody ''Failed to create match''), s)
      | Some b \<Rightarrow>
          if falsy (mb_location b) \<or> falsy (mb_date b) \<or> \<not> truthy (mb_playersNeeded b)
             \<or> (case mb_creator b of
                   None \<Rightarrow> True
                 | Some c \<Rightarrow> falsy (cb_name c) \<or> falsy (cb_contact c))
          then ((400, ErrorBody ''Missing required fields''), s)
          else
            (case mb_creator b of
               None \<Rightarrow> ((400, ErrorBody ''Missing required fields''), s)
             | Some c \<Rightarrow>
                 (case q_insert_match pg s now (text_of (mb_location b)) (text_of (mb_date b))
                         (if falsy (mb_time b) then None else mb_time b)
                         (parseInt (mb_playersNeeded b))
                         (text_of (cb_name c)) (text_of (cb_contact c)) of
                    (Inl e, s') \<Rightarrow> ((500, ErrorBody ''Failed to create match''), s')
                  | (Inr newMatch, s') \<Rightarrow>
                      ((200, Created
                          \<lparr>cr_id = m_id newMatch,
                           cr_location = location newMatch,
                           cr_date = date newMatch,
                           cr_time = time newMatch,
                           playersNeeded = players_needed newMatch,
                           cr_creator = \<lparr>cj_name = creator_name newMatch,
                                          cj_contact = creator_contact newMatch\<rparr>,
                           cr_players = [],
                           createdAt = created_at newMatch\<rparr>), s'))))"

text \<open>
  \<^verbatim>\<open>POST /matches/:id/join\<close>. \<^verbatim>\<open>COUNT\<close> comes back as a decimal string and \<^verbatim>\<open>>=\<close>
  converts it to its number, so the test compares the count with the quota as numbers.
  \<^verbatim>\<open>updatedMatch.rows[0]\<close> of an empty result is undefined: the reply has no payload.
\<close>

definition post_join :: "store \<Rightarrow> nat \<Rightarrow> string \<Rightarrow> join_body option \<Rightarrow> reply \<times> store" where
  "post_join s now ident body =
     (let matchId = parseInt (JStr ident) in
      case body of
        None \<Rightarrow> ((500, ErrorBody ''Failed to join match''), s)
      | Some b \<Rightarrow>
          if falsy (jb_name b) \<or> falsy (jb_contact b)
          then ((400, ErrorBody ''Name and contact required''), s)
          else
            (case q_match_count s matchId of
               Inl e \<Rightarrow> ((500, ErrorBody ''Failed to join match''), s)
             | Inr [] \<Rightarrow> ((404, ErrorBody ''Match not found''), s)
             | Inr ((m, player_count) # _) \<Rightarrow>
                 if int player_count \<ge> players_needed m
                 then ((400, ErrorBody ''Match is full!''), s)
                 else
                   (case q_existing_player s matchId (text_of (jb_name b)) of
                      Inl e \<Rightarrow> ((500, ErrorBody ''Failed to join match''), s)
                    | Inr existingPlayer \<Rightarrow>
                        if length existingPlayer > 0
                        then ((400, ErrorBody ''You have already joined this match''), s)
                        else
                          (case q_insert_player s now matchId (text_of (jb_name b))
                                  (text_of (jb_contact b)) of
                             (Inl e, s') \<Rightarrow> ((500, ErrorBody ''Failed to join match''), s')
                           | (Inr u, s') \<Rightarrow>
                               (case q_aggregate s' matchId of
                                  Inl e \<Rightarrow> ((500, ErrorBody ''Failed to join match''), s')
                                | Inr [] \<Rightarrow> ((200, NoBody), s')
                                | Inr (a # _) \<Rightarrow> ((200, AggregateBody a), s'))))))"

text \<open>\<^verbatim>\<open>POST /matches/:id/leave\<close>\<close>

definition post_leave :: "store \<Rightarrow> string \<Rightarrow> leave_body option \<Rightarrow> reply \<times> store" where
  "post_leave s ident body =
     (let matchId = parseInt (JStr ident) in
      case body of
        None \<Rightarrow> ((500, ErrorBody ''Failed to leave match''), s)
      | Some b \<Rightarrow>
          if falsy (lb_name b)
          then ((400, ErrorBody ''Name required''), s)
          else
            (case q_delete_player s matchId (text_of (lb_name b)) of
               Inl e \<Rightarrow> ((500, ErrorBody ''Failed to leave match''), s)
             | Inr (rows, s') \<Rightarrow>
                 if length rows = 0
                 then ((404, ErrorBody ''Player not found in this match''), s')
                 else ((200, Message ''Left match successfully''), s')))"

text \<open>\<^verbatim>\<open>DELETE /matches/:id\<close>: the players first, then the match.\<close>

definition delete_match :: "store \<Rightarrow> string \<Rightarrow> reply \<times> store" where
  "delete_match s ident =
     (let matchId = parseInt (JStr ident) in
      case q_delete_players_of s matchId of
        Inl e \<Rightarrow> ((500, ErrorBody ''Failed to delete match''), s)
      | Inr s1 \<Rightarrow>
          (case q_delete_match s1 matchId of
             Inl e \<Rightarrow> ((500, ErrorBody ''Failed to delete match''), s1)
           | Inr (rows, s2) \<Rightarrow>
               if length rows = 0
               then ((404, ErrorBody ''Match not found''), s2)
               else ((200, Message ''Match deleted successfully''), s2)))"

subsection \<open>The join handler, cut at its awaits\<close>

text \<open>
  The join handler awaits four queries, none inside a transaction: each runs on its
  own, and between two of them the event loop may run a step of another request. A task
  is a request's position in the handler with its local variables; one step runs the
  code up to and including the next query and the synchronous code that follows it.
\<close>

datatype join_task =
    JoinStart string "join_body option"
  | JoinCheck "int option" string string
  | JoinInsert "int option" string string
  | JoinRefresh "int option"
  | JoinDone reply

fun join_step :: "store \<Rightarrow> nat \<Rightarrow> join_task \<Rightarrow> join_task \<times> store" where
  "join_step s now (JoinStart ident body) =
     (let matchId = parseInt (JStr ident) in
      case body of
        None \<Rightarrow> (JoinDone (500, ErrorBody ''Failed to join match''), s)
      | Some b \<Rightarrow>
          if falsy (jb_name b) \<or> falsy (jb_contact b)
          then (JoinDone (400, ErrorBody ''Name and contact required''), s)
          else
            (case q_match_count s matchId of
               Inl e \<Rightarrow> (JoinDone (500, ErrorBody ''Failed to join match''), s)
             | Inr [] \<Rightarrow> (JoinDone (404, ErrorBody ''Match not found''), s)
             | Inr ((m, player_count) # _) \<Rightarrow>
                 if int player_count \<ge> players_needed m
                 then (JoinDone (400, ErrorBody ''Match is full!''), s)
                 else (JoinCheck matchId (text_of (jb_name b)) (text_of (jb_contact b)), s)))"
| "join_step s now (JoinCheck matchId nm ct) =
     (case q_existing_player s matchId nm of
        Inl e \<Rightarrow> (JoinDone (500, ErrorBody ''Failed to join match''), s)
      | Inr existingPlayer \<Rightarrow>
          if length existingPlayer > 0
          then (JoinDone (400, ErrorBody ''You have already joined this match''), s)
          else (JoinInsert matchId nm ct, s))"
| "join_step s now (JoinInsert matchId nm ct) =
     (case q_insert_player s now matchId nm ct of
        (Inl e, s') \<Rightarrow> (JoinDone (500, ErrorBody ''Failed to join match''), s')
      | (Inr u, s') \<Rightarrow> (JoinRefresh matchId, s'))"
| "join_step s now (JoinRefresh matchId) =
     (case q_aggregate s matchId of
        Inl e \<Rightarrow> (JoinDone (500, ErrorBody ''Failed to join match''), s)
      | Inr [] \<Rightarrow> (JoinDone (200, NoBody), s)
      | Inr (a # _) \<Rightarrow> (JoinDone (200, AggregateBody a), s))"
| "join_step s now (JoinDone r) = (JoinDone r, s)"

text \<open>
  A schedule names, step by step, the request that runs next and the clock's reading.
\<close>

fun run_joins :: "store \<Rightarrow> join_task list \<Rightarrow> (nat \<times> nat) list \<Rightarrow> join_task list \<times> store" where
  "run_joins s ts [] = (ts, s)"
| "run_joins s ts ((i, now) # sched) =
     (if i < length ts
      then (case join_step s now (ts ! i) of (t', s') \<Rightarrow> run_joins s' (ts[i := t']) sched)
      else run_joins s ts sched)"

section \<open>Sequences of operations and the constraints of the store\<close>

datatype operation =
    CreateMatch nat "match_body option"
  | Join nat string "join_body option"
  | Leave string "leave_body option"
  | DeleteMatch string

fun exec :: "pgtypes \<Rightarrow> store \<Rightarrow> operation \<Rightarrow> store" where
  "exec pg s (CreateMatch now body) = snd (post_matches pg s now body)"
| "exec pg s (Join now ident body) = snd (post_join s now ident body)"
| "exec pg s (Leave ident body) = snd (post_leave s ident body)"
| "exec pg s (DeleteMatch ident) = snd (delete_match s ident)"

definition run :: "pgtypes \<Rightarrow> store \<Rightarrow> operation list \<Rightarrow> store" where
  "run pg s ops = foldl (exec pg) s ops"

text \<open>The number of player rows that belong to the match with id \<open>k\<close>.\<close>

definition player_count :: "store \<Rightarrow> int \<Rightarrow> nat" where
  "player_count s k = length (filter (\<lambda>p. match_id p = k) (players s))"

text \<open>
  What the schema makes the store keep: the primary keys, drawn from their sequences,
  the CHECK on \<^verbatim>\<open>players_needed\<close>, the unique index on \<^verbatim>\<open>(match_id, name)\<close> and the
  foreign key of \<^verbatim>\<open>players.match_id\<close>.
\<close>

definition schema_ok :: "store \<Rightarrow> bool" where
  "schema_ok s =
     (distinct (map m_id (matches s))
      \<and> list_all (\<lambda>m. m_id m \<le> matches_id_seq s) (matches s)
      \<and> list_all (\<lambda>m. players_needed m > 0 \<and> players_needed m \<le> 20) (matches s)
      \<and> distinct (map p_id (players s))
      \<and> list_all (\<lambda>p. p_id p \<le> players_id_seq s) (players s)
      \<and> distinct (map (\<lambda>p. (match_id p, name p)) (players s))
      \<and> list_all (\<lambda>p. list_ex (\<lambda>m. m_id m = match_id p) (matches s)) (players s))"

text \<open>The capacity limit, which no constraint of the schema states.\<close>

definition capacity_ok :: "store \<Rightarrow> bool" where
  "capacity_ok s =
     list_all (\<lambda>m. int (player_count s (m_id m)) \<le> players_needed m) (matches s)"

text \<open>The test of \<^verbatim>\<open>POST /matches\<close> on its body: a required field is missing or falsy.\<close>

definition missing_fields :: "match_body \<Rightarrow> bool" where
  "missing_fields b =
     (falsy (mb_location b) \<or> falsy (mb_date b) \<or> \<not> truthy (mb_playersNeeded b)
      \<or> (case mb_creator b of
            None \<Rightarrow> True
          | Some c \<Rightarrow> falsy (cb_name c) \<or> falsy (cb_contact c)))"

text \<open>A text that is not empty and that the store takes into a VARCHAR(255) column as it is.\<close>

definition plain_text :: "string \<Rightarrow> bool" where
  "plain_text x = (x \<noteq> [] \<and> length x \<le> 255 \<and> pg_text x)"

text \<open>The store after the insert of a player row succeeded.\<close>

definition joined :: "store \<Rightarrow> nat \<Rightarrow> int \<Rightarrow> string \<Rightarrow> string \<Rightarrow> store" where
  "joined s now k nm ct =
     s\<lparr>players_id_seq := players_id_seq s + 1,
       players := players s @
         [\<lparr>p_id = players_id_seq s + 1, match_id = k, name = nm, contact = ct, joined_at = now\<rparr>]\<rparr>"

section \<open>Sessions\<close>

text \<open>
  \<^verbatim>\<open>src/unnamed/part_000\<close> keeps \<^verbatim>\<open>sessions\<close>, a \<^verbatim>\<open>Map\<close> from token to user id, in the
  memory of the process. The table \<^verbatim>\<open>users\<close> has no schema in the repository; its rows
  are part of the state.
\<close>

record auth_state =
  sessions :: "string \<rightharpoonup> int"
  users :: "user_row list"

text \<open>\<^verbatim>\<open>str.replace(pat, '')\<close> with a string pattern removes its first occurrence.\<close>

fun replace_first :: "string \<Rightarrow> string \<Rightarrow> string" where
  "replace_first pat [] = []"
| "replace_first pat (c # cs) =
     (if take (length pat) (c # cs) = pat then drop (length pat) (c # cs)
      else c # replace_first pat cs)"

text \<open>\<^verbatim>\<open>request.headers.authorization?.replace('Bearer ', '')\<close>\<close>

definition bearer_token :: "string option \<Rightarrow> string option" where
  "bearer_token authorization = map_option (replace_first ''Bearer '') authorization"

text \<open>
  \<^verbatim>\<open>getUserFromToken\<close>: \<^verbatim>\<open>!userId\<close> holds for a token that is not a key of the map, and for
  the id 0; \<^verbatim>\<open>result.rows[0] || null\<close> is the first row, if any.
\<close>

definition getUserFromToken :: "auth_state \<Rightarrow> string \<Rightarrow> user_row option" where
  "getUserFromToken a token =
     (case sessions a token of
        None \<Rightarrow> None
      | Some userId \<Rightarrow>
          if userId = 0 then None
          else (case filter (\<lambda>u. u_id u = userId) (users a) of
                  [] \<Rightarrow> None
                | u # _ \<Rightarrow> Some u))"

text \<open>\<^verbatim>\<open>GET /auth/me\<close>\<close>

definition get_me :: "auth_state \<Rightarrow> string option \<Rightarrow> reply" where
  "get_me a authorization =
     (let token = bearer_token authorization in
      if falsy token then (401, ErrorBody ''Not authenticated'')
      else
        (case getUserFromToken a (text_of token) of
           None \<Rightarrow> (401, ErrorBody ''Invalid session'')
         | Some user \<Rightarrow> (200, UserBody user)))"

text \<open>\<^verbatim>\<open>POST /auth/logout\<close>\<close>

definition post_logout :: "auth_state \<Rightarrow> string option \<Rightarrow> reply \<times> auth_state" where
  "post_logout a authorization =
     (let token = bearer_token authorization in
      if \<not> falsy token
      then ((200, SuccessBody), a\<lparr>sessions := (sessions a)(text_of token := None)\<rparr>)
      else ((200, SuccessBody), a))"

section \<open>Example requests and stores\<close>

text \<open>A store whose DATE and TIME parsers take every text.\<close>

definition pg_demo :: pgtypes where
  "pg_demo = \<lparr>date_in = Some, time_in = Some\<rparr>"

definition demo_match :: match_body where
  "demo_match =
     \<lparr>mb_location = Some ''Imphal Stadium'', mb_date = Some ''2026-02-25'',
      mb_time = Some ''18:00'', mb_playersNeeded = JNum 1,
      mb_creator = Some \<lparr>cb_name = Some ''Rahul'', cb_contact = Some ''+91''\<rparr>\<rparr>"

definition body_A :: join_body where
  "body_A = \<lparr>jb_name = Some ''A'', jb_contact = Some ''a@x''\<rparr>"

definition body_B :: join_body where
  "body_B = \<lparr>jb_name = Some ''B'', jb_contact = Some ''b@x''\<rparr>"

definition demo_row :: match_row where
  "demo_row =
     \<lparr>m_id = 1, location = ''Imphal Stadium'', date = ''2026-02-25'', time = Some ''18:00'',
      players_needed = 1, creator_name = ''Rahul'', creator_contact = ''+91'',
      created_at = 10\<rparr>"

text \<open>The store after \<open>demo_match\<close> was created at time 10 in the empty store.\<close>

definition store_created :: store where
  "store_created =
     \<lparr>matches = [demo_row], players = [], matches_id_seq = 1, players_id_seq = 0\<rparr>"

text \<open>The same store after A joined at time 11.\<close>

definition store_joined :: store where
  "store_joined =
     \<lparr>matches = [demo_row],
      players = [\<lparr>p_id = 1, match_id = 1, name = ''A'', contact = ''a@x'', joined_at = 11\<rparr>],
      matches_id_seq = 1, players_id_seq = 1\<rparr>"

definition demo_ops :: "operation list" where
  "demo_ops = [CreateMatch 10 (Some demo_match), Join 11 ''1'' (Some body_A)]"

text \<open>The reply to the creation of \<open>demo_match\<close>, and the aggregate after A joined.\<close>

definition demo_reply :: created_json where
  "demo_reply =
     \<lparr>cr_id = 1, cr_location = ''Imphal Stadium'', cr_date = ''2026-02-25'',
      cr_time = Some ''18:00'', playersNeeded = 1,
      cr_creator = \<lparr>cj_name = ''Rahul'', cj_contact = ''+91''\<rparr>, cr_players = [],
      createdAt = 10\<rparr>"

definition demo_agg :: aggregate where
  "demo_agg =
     \<lparr>agg_row = demo_row, creator = \<lparr>cj_name = ''Rahul'', cj_contact = ''+91''\<rparr>,
      agg_players = [\<lparr>pj_name = ''A'', pj_contact = ''a@x'', joinedAt = 11\<rparr>]\<rparr>"

text \<open>Bodies that fail a test: a quota of 21, no location, no contact.\<close>

definition demo_match_21 :: match_body where
  "demo_match_21 = demo_match\<lparr>mb_playersNeeded := JNum 21\<rparr>"

definition demo_match_nowhere :: match_body where
  "demo_match_nowhere = demo_match\<lparr>mb_location := None\<rparr>"


definition leave_A :: leave_body where
  "leave_A = \<lparr>lb_name = Some ''A''\<rparr>"

definition leave_B :: leave_body where
  "leave_B = \<lparr>lb_name = Some ''B''\<rparr>"

text \<open>The created match with a quota of 3 instead of 1.\<close>

definition store_roomy :: store where
  "store_roomy =
     \<lparr>matches = [demo_row\<lparr>players_needed := 3\<rparr>], players = [], matches_id_seq = 1,
      players_id_seq = 0\<rparr>"

text \<open>That store after A joined at time 11, and after B joined too at time 12.\<close>

definition store_roomy_A :: store where
  "store_roomy_A =
     store_roomy\<lparr>players_id_seq := 1,
       players := [\<lparr>p_id = 1, match_id = 1, name = ''A'', contact = ''a@x'', joined_at = 11\<rparr>]\<rparr>"

definition store_roomy_AB :: store where
  "store_roomy_AB =
     store_roomy\<lparr>players_id_seq := 2,
       players := [\<lparr>p_id = 1, match_id = 1, name = ''A'', contact = ''a@x'', joined_at = 11\<rparr>,
                   \<lparr>p_id = 2, match_id = 1, name = ''B'', contact = ''b@x'', joined_at = 12\<rparr>]\<rparr>"

text \<open>
  Two join requests for the one seat of \<open>store_created\<close>, A as request 0 and B as
  request 1: both count, both look for their name, both insert, both read the result.
\<close>

definition race_schedule :: "(nat \<times> nat) list" where
  "race_schedule = [(0, 11), (1, 11), (0, 12), (1, 12), (0, 13), (1, 14), (0, 15), (1, 15)]"

definition store_overbooked :: store where
  "store_overbooked =
     \<lparr>matches = [demo_row],
      players = [\<lparr>p_id = 1, match_id = 1, name = ''A'', contact = ''a@x'', joined_at = 13\<rparr>,
                 \<lparr>p_id = 2, match_id = 1, name = ''B'', contact = ''b@x'', joined_at = 14\<rparr>],
      matches_id_seq = 1, players_id_seq = 2\<rparr>"

text \<open>A user with an open session.\<close>

definition demo_user :: user_row where
  "demo_user = \<lparr>u_id = 7, username = ''rahul'', u_name = ''Rahul'', u_contact = ''+91''\<rparr>"

definition demo_auth :: auth_state where
  "demo_auth = \<lparr>sessions = [''session_k3'' \<mapsto> 7], users = [demo_user]\<rparr>"

section \<open>Lemmas about the queries\<close>

text \<open>
  The double next to \<open>5 * 10^22\<close> is 49999999999999995805696; it prints as
  \<^verbatim>\<open>5e+22\<close>, so \<^verbatim>\<open>parseInt\<close> reads 5 where the integer itself starts with 4.
\<close>

lemma floor_log_numeral:
  "floor_log10 (numeral k)
     = (if (numeral k :: nat) < 10 then 0 else Suc (floor_log10 (numeral k div 10)))"
  "floor_log2 (numeral k)
     = (if (numeral k :: nat) < 2 then 0 else Suc (floor_log2 (numeral k div 2)))"
  "floor_log10 (Suc 0) = 0" "floor_log2 (Suc 0) = 0"
proof -
  show "floor_log10 (numeral k)
     = (if (numeral k :: nat) < 10 then 0 else Suc (floor_log10 (numeral k div 10)))"
    by (rule floor_log10.simps)
  show "floor_log2 (numeral k)
     = (if (numeral k :: nat) < 2 then 0 else Suc (floor_log2 (numeral k div 2)))"
    by (rule floor_log2.simps)
  show "floor_log10 (Suc 0) = 0" by (simp add: floor_log10.simps)
  show "floor_log2 (Suc 0) = 0" by (simp add: floor_log2.simps)
qed

lemma parseInt_large_double:
  "parseInt (JNum 49999999999999995805696) = Some 5"
  "parseInt (JNum 49999999999999987417088) = Some 4"
  "parseInt (JNum (- 1000000000000000000000)) = Some (- 1)"
  by (simp_all add: parseInt_def first_digit_def floor_log_numeral Let_def)

lemma count_left_join: "count_p_id (left_join_players s m) = player_count s (m_id m)"
  by (cases "filter (\<lambda>p. match_id p = m_id m) (players s)")
     (simp_all add: count_p_id_def left_join_players_def player_count_def)

lemma map_filter_Some: "List.map_filter (\<lambda>r. r) (map Some ps) = ps"
  by (induction ps) simp_all

lemma agg_players_of:
  "agg_players (aggregate_of s m) =
     map to_player_json (sort_key joined_at (filter (\<lambda>p. match_id p = m_id m) (players s)))"
proof (cases "filter (\<lambda>p. match_id p = m_id m) (players s)")
  case Nil
  then show ?thesis
    by (simp add: aggregate_of_def left_join_players_def json_agg_players_def
        coalesce_players_def)
next
  case (Cons p ps)
  have "List.map_filter (\<lambda>r. r) (map Some (p # ps)) = p # ps"
    by (rule map_filter_Some)
  then show ?thesis
    using Cons
    by (simp add: aggregate_of_def left_join_players_def json_agg_players_def
        coalesce_players_def del: sort_key_simps split: list.split)
qed

lemma length_agg_players: "length (agg_players (aggregate_of s m)) = player_count s (m_id m)"
  by (simp add: agg_players_of player_count_def)

lemma agg_row_of [simp]: "agg_row (aggregate_of s m) = m"
  by (simp add: aggregate_of_def)

lemma q_match_count_Inr:
  "int4_in mid = Inr k \<Longrightarrow>
   q_match_count s mid = Inr (map (\<lambda>m. (m, player_count s k)) (filter (\<lambda>m. m_id m = k) (matches s)))"
  by (simp add: q_match_count_def count_left_join cong: map_cong)

lemma q_match_count_Inl: "int4_in mid = Inl e \<Longrightarrow> q_match_count s mid = Inl e"
  by (simp add: q_match_count_def)

lemma q_insert_player_result:
  assumes "q_insert_player s now mid nm ct = (r, s')"
  shows "matches s' = matches s \<and> matches_id_seq s' = matches_id_seq s
     \<and> players_id_seq s \<le> players_id_seq s'
     \<and> ((\<exists>e. r = Inl e) \<and> players s' = players s
        \<or> r = Inr () \<and>
          (\<exists>k n c. int4_in mid = Inr k \<and> text_in nm = Inr nm \<and> varchar255 nm = Inr n
             \<and> players_id_seq s' = players_id_seq s + 1
             \<and> players s' = players s @
                 [\<lparr>p_id = players_id_seq s + 1, match_id = k, name = n, contact = c,
                   joined_at = now\<rparr>]
             \<and> \<not> list_ex (\<lambda>p. match_id p = k \<and> name p = n) (players s)
             \<and> list_ex (\<lambda>m. m_id m = k) (matches s)))"
  using assms
  by (auto simp: q_insert_player_def Let_def text_in_def pg_text_def split: sum.splits if_splits)

lemma q_insert_match_result:
  assumes "q_insert_match pg s now loc d t pn cn cc = (r, s')"
  shows "players s' = players s \<and> players_id_seq s' = players_id_seq s
     \<and> matches_id_seq s \<le> matches_id_seq s'
     \<and> ((\<exists>e. r = Inl e) \<and> matches s' = matches s
        \<or> (\<exists>row. r = Inr row \<and> matches s' = matches s @ [row]
             \<and> matches_id_seq s' = matches_id_seq s + 1
             \<and> m_id row = matches_id_seq s + 1
             \<and> int4_in pn = Inr (players_needed row)
             \<and> players_needed row > 0 \<and> players_needed row \<le> 20
             \<and> created_at row = now))"
  using assms
  by (auto simp: q_insert_match_def Let_def split: sum.splits if_splits option.splits)

section \<open>The store keeps the constraints of its schema\<close>

lemma schema_ok_insert_player:
  assumes ok: "schema_ok s" and q: "q_insert_player s now mid nm ct = (r, s')"
  shows "schema_ok s'"
proof -
  note res = q_insert_player_result [OF q]
  from res consider
      (err) "players s' = players s"
    | (ins) k n c where
        "players_id_seq s' = players_id_seq s + 1"
        "players s' = players s @
           [\<lparr>p_id = players_id_seq s + 1, match_id = k, name = n, contact = c, joined_at = now\<rparr>]"
        "\<not> list_ex (\<lambda>p. match_id p = k \<and> name p = n) (players s)"
        "list_ex (\<lambda>m. m_id m = k) (matches s)"
    by blast
  then show ?thesis
  proof cases
    case err
    with ok res show ?thesis
      by (auto simp: schema_ok_def list_all_iff)
  next
    case ins
    with ok res show ?thesis
      by (fastforce simp: schema_ok_def list_all_iff list_ex_iff)
  qed
qed

lemma schema_ok_insert_match:
  assumes ok: "schema_ok s" and q: "q_insert_match pg s now loc d t pn cn cc = (r, s')"
  shows "schema_ok s'"
proof -
  note res = q_insert_match_result [OF q]
  from res consider
      (err) "matches s' = matches s"
    | (ins) row where "matches s' = matches s @ [row]"
        "matches_id_seq s' = matches_id_seq s + 1" "m_id row = matches_id_seq s + 1"
        "players_needed row > 0" "players_needed row \<le> 20"
    by blast
  then show ?thesis
  proof cases
    case err
    with ok res show ?thesis
      by (auto simp: schema_ok_def list_all_iff)
  next
    case ins
    with ok res show ?thesis
      by (fastforce simp: schema_ok_def list_all_iff list_ex_iff)
  qed
qed

lemma schema_ok_delete_player:
  assumes ok: "schema_ok s" and q: "q_delete_player s mid nm = Inr (rows, s')"
  shows "schema_ok s'"
  using assms
  by (auto simp: q_delete_player_def schema_ok_def list_all_iff distinct_map_filter
      split: sum.splits)

lemma schema_ok_delete_players_of:
  assumes ok: "schema_ok s" and q: "q_delete_players_of s mid = Inr s'"
  shows "schema_ok s'"
  using assms
  by (auto simp: q_delete_players_of_def schema_ok_def list_all_iff distinct_map_filter
      split: sum.splits)

lemma schema_ok_delete_match:
  assumes ok: "schema_ok s" and q: "q_delete_match s mid = Inr (rows, s')"
  shows "schema_ok s'"
proof -
  from q obtain k where k: "int4_in mid = Inr k"
    and s': "s' = s\<lparr>matches := filter (\<lambda>m. m_id m \<noteq> k) (matches s),
                 players := (if list_ex (\<lambda>m. m_id m = k) (matches s)
                    then filter (\<lambda>p. match_id p \<noteq> k) (players s) else players s)\<rparr>"
    by (auto simp: q_delete_match_def split: sum.splits)
  have fk: "\<And>p. p \<in> set (players s') \<Longrightarrow> \<exists>m\<in>set (matches s'). m_id m = match_id p"
  proof -
    fix p assume p: "p \<in> set (players s')"
    then have "p \<in> set (players s)" by (simp add: s' split: if_splits)
    with ok obtain m where m: "m \<in> set (matches s)" "m_id m = match_id p"
      by (auto simp: schema_ok_def list_all_iff list_ex_iff)
    have "match_id p \<noteq> k"
    proof (cases "list_ex (\<lambda>m. m_id m = k) (matches s)")
      case True
      with p show ?thesis by (simp add: s')
    next
      case False
      with m show ?thesis by (auto simp: list_ex_iff)
    qed
    with m show "\<exists>m\<in>set (matches s'). m_id m = match_id p"
      by (auto simp: s')
  qed
  from ok have "distinct (map m_id (matches s'))" "distinct (map p_id (players s'))"
    "distinct (map (\<lambda>p. (match_id p, name p)) (players s'))"
    by (auto simp: s' schema_ok_def distinct_map_filter)
  moreover from ok have "list_all (\<lambda>m. m_id m \<le> matches_id_seq s') (matches s')"
    "list_all (\<lambda>m. players_needed m > 0 \<and> players_needed m \<le> 20) (matches s')"
    "list_all (\<lambda>p. p_id p \<le> players_id_seq s') (players s')"
    by (auto simp: s' schema_ok_def list_all_iff)
  moreover from fk have "list_all (\<lambda>p. list_ex (\<lambda>m. m_id m = match_id p) (matches s')) (players s')"
    by (auto simp: list_all_iff list_ex_iff)
  ultimately show ?thesis
    by (simp add: schema_ok_def)
qed

section \<open>The handlers keep the capacity limit\<close>

lemma post_join_result:
  assumes "post_join s now ident body = (r, s')"
  shows "s' = s \<or>
    (\<exists>b m c rest r'. body = Some b
       \<and> q_match_count s (parseInt (JStr ident)) = Inr ((m, c) # rest)
       \<and> int c < players_needed m
       \<and> q_existing_player s (parseInt (JStr ident)) (text_of (jb_name b)) = Inr []
       \<and> q_insert_player s now (parseInt (JStr ident)) (text_of (jb_name b))
            (text_of (jb_contact b)) = (r', s'))"
  using assms
  by (auto simp: post_join_def Let_def split: option.splits if_splits sum.splits list.splits prod.splits)

lemma match_by_id:
  assumes "distinct (map m_id ms)" "m \<in> set ms" "m' \<in> set ms" "m_id m = m_id m'"
  shows "m = m'"
  using assms by (meson distinct_map inj_onD)

lemma capacity_ok_same:
  "matches s' = matches s \<Longrightarrow> players s' = players s \<Longrightarrow> capacity_ok s \<Longrightarrow> capacity_ok s'"
  by (simp add: capacity_ok_def player_count_def)

lemma schema_ok_post_join:
  assumes "schema_ok s" "post_join s now ident body = (r, s')"
  shows "schema_ok s'"
  using post_join_result [OF assms(2)] assms(1) schema_ok_insert_player by blast

lemma capacity_ok_post_join:
  assumes ok: "schema_ok s" and cap: "capacity_ok s"
    and j: "post_join s now ident body = (r, s')"
  shows "capacity_ok s'"
proof -
  from post_join_result [OF j] consider (same) "s' = s"
    | (ins) b :: join_body and m c rest r' where
        "q_match_count s (parseInt (JStr ident)) = Inr ((m, c) # rest)"
        "int c < players_needed m"
        "q_insert_player s now (parseInt (JStr ident)) (text_of (jb_name b))
            (text_of (jb_contact b)) = (r', s')"
    by blast
  then show ?thesis
  proof cases
    case same
    with cap show ?thesis by simp
  next
    case ins
    note res = q_insert_player_result [OF ins(3)]
    have "players s' = players s \<or>
      (\<exists>k n c'. int4_in (parseInt (JStr ident)) = Inr k \<and>
          players s' = players s @
             [\<lparr>p_id = players_id_seq s + 1, match_id = k, name = n, contact = c', joined_at = now\<rparr>])"
      using res by auto
    then consider (err) "players s' = players s"
      | (row) k n c' where "int4_in (parseInt (JStr ident)) = Inr k"
          "players s' = players s @
             [\<lparr>p_id = players_id_seq s + 1, match_id = k, name = n, contact = c', joined_at = now\<rparr>]"
      by auto
    then show ?thesis
    proof cases
      case err
      from res have "matches s' = matches s" by simp
      from capacity_ok_same [OF this err cap] show ?thesis .
    next
      case row
      from ins(1) row(1)
      have hd: "(m, c) # rest = map (\<lambda>m. (m, player_count s k)) (filter (\<lambda>m. m_id m = k) (matches s))"
        by (simp add: q_match_count_Inr)
      have "(m, c) \<in> set ((m, c) # rest)" by simp
      then have "(m, c) \<in> set (map (\<lambda>m. (m, player_count s k)) (filter (\<lambda>m. m_id m = k) (matches s)))"
        by (simp only: hd)
      then have m: "m \<in> set (matches s)" "m_id m = k" "c = player_count s k"
        by auto
      have cnt: "player_count s' j = player_count s j + (if j = k then 1 else 0)" for j
        by (simp add: player_count_def row(2))
      have "int (player_count s' (m_id m')) \<le> players_needed m'" if m': "m' \<in> set (matches s)" for m'
      proof (cases "m_id m' = k")
        case True
        from ok have "distinct (map m_id (matches s))" by (simp add: schema_ok_def)
        from match_by_id [OF this m' m(1)] True m(2) have "m' = m" by simp
        with ins(2) m cnt show ?thesis by simp
      next
        case False
        with cap m' cnt show ?thesis by (simp add: capacity_ok_def list_all_iff)
      qed
      with res show ?thesis by (simp add: capacity_ok_def list_all_iff)
    qed
  qed
qed

lemma capacity_ok_shrink:
  assumes "set (matches s') \<subseteq> set (matches s)"
    and "\<And>k. player_count s' k \<le> player_count s k"
    and "capacity_ok s"
  shows "capacity_ok s'"
  unfolding capacity_ok_def list_all_iff
proof
  fix m assume "m \<in> set (matches s')"
  with assms(1,3) have "int (player_count s (m_id m)) \<le> players_needed m"
    by (auto simp: capacity_ok_def list_all_iff)
  moreover have "int (player_count s' (m_id m)) \<le> int (player_count s (m_id m))"
    using assms(2) by simp
  ultimately show "int (player_count s' (m_id m)) \<le> players_needed m"
    by linarith
qed

lemma length_filter_filter_le: "length (filter (\<lambda>x. Q x \<and> P x) xs) \<le> length (filter P xs)"
  by (induction xs) auto

lemma post_matches_result:
  assumes "post_matches pg s now body = (r, s')"
  shows "s' = s \<or>
    (\<exists>b c r'. body = Some b \<and> mb_creator b = Some c \<and> \<not> missing_fields b
       \<and> q_insert_match pg s now (text_of (mb_location b)) (text_of (mb_date b))
            (if falsy (mb_time b) then None else mb_time b) (parseInt (mb_playersNeeded b))
            (text_of (cb_name c)) (text_of (cb_contact c)) = (r', s'))"
  using assms
  by (auto simp: post_matches_def missing_fields_def split: option.splits if_splits sum.splits prod.splits)

lemma schema_ok_post_matches:
  assumes "schema_ok s" "post_matches pg s now body = (r, s')"
  shows "schema_ok s'"
  using post_matches_result [OF assms(2)] assms(1) schema_ok_insert_match by blast

lemma no_player_of_fresh_match:
  assumes ok: "schema_ok s" and "matches_id_seq s < k"
  shows "player_count s k = 0"
proof -
  have "match_id p \<noteq> k" if "p \<in> set (players s)" for p
  proof -
    from ok that obtain m where "m \<in> set (matches s)" "m_id m = match_id p"
      by (auto simp: schema_ok_def list_all_iff list_ex_iff)
    moreover from ok this(1) have "m_id m \<le> matches_id_seq s"
      by (auto simp: schema_ok_def list_all_iff)
    ultimately show ?thesis using assms(2) by simp
  qed
  then show ?thesis
    by (simp add: player_count_def)
qed

lemma capacity_ok_post_matches:
  assumes ok: "schema_ok s" and cap: "capacity_ok s"
    and c: "post_matches pg s now body = (r, s')"
  shows "capacity_ok s'"
proof -
  from post_matches_result [OF c] consider (same) "s' = s"
    | (ins) loc d t pn cn cc r' where "q_insert_match pg s now loc d t pn cn cc = (r', s')"
    by blast
  then show ?thesis
  proof cases
    case same
    with cap show ?thesis by simp
  next
    case ins
    note res = q_insert_match_result [OF ins]
    then have pl: "players s' = players s" by simp
    have "matches s' = matches s \<or>
      (\<exists>row. matches s' = matches s @ [row] \<and> m_id row = matches_id_seq s + 1
          \<and> players_needed row > 0)"
      using res by auto
    then consider (err) "matches s' = matches s"
      | (row) row where "matches s' = matches s @ [row]" "m_id row = matches_id_seq s + 1"
          "players_needed row > 0"
      by auto
    then show ?thesis
    proof cases
      case err
      from capacity_ok_same [OF err pl cap] show ?thesis .
    next
      case row
      have "player_count s' (m_id row) = 0"
        using no_player_of_fresh_match [OF ok, of "m_id row"] row(2) pl
        by (simp add: player_count_def)
      with row(3) have "int (player_count s' (m_id row)) \<le> players_needed row"
        by simp
      moreover from cap pl have "list_all (\<lambda>m. int (player_count s' (m_id m)) \<le> players_needed m) (matches s)"
        by (simp add: capacity_ok_def player_count_def)
      ultimately show ?thesis
        by (simp add: capacity_ok_def row(1))
    qed
  qed
qed

lemma post_leave_result:
  assumes "post_leave s ident body = (r, s')"
  shows "s' = s \<or>
    (\<exists>b rows. body = Some b
       \<and> q_delete_player s (parseInt (JStr ident)) (text_of (lb_name b)) = Inr (rows, s'))"
  using assms
  by (auto simp: post_leave_def Let_def split: option.splits if_splits sum.splits prod.splits)

lemma q_delete_player_state:
  assumes "q_delete_player s mid nm = Inr (rows, s')"
  shows "matches s' = matches s"
    and "\<exists>k. int4_in mid = Inr k \<and> text_in nm = Inr nm
          \<and> rows = filter (\<lambda>p. match_id p = k \<and> name p = nm) (players s)
          \<and> players s' = filter (\<lambda>p. \<not> (match_id p = k \<and> name p = nm)) (players s)"
  using assms
  by (auto simp: q_delete_player_def text_in_def pg_text_def split: sum.splits if_splits)

lemma schema_ok_post_leave:
  assumes "schema_ok s" "post_leave s ident body = (r, s')"
  shows "schema_ok s'"
  using post_leave_result [OF assms(2)] assms(1) schema_ok_delete_player by blast

lemma capacity_ok_post_leave:
  assumes cap: "capacity_ok s" and l: "post_leave s ident body = (r, s')"
  shows "capacity_ok s'"
proof -
  from post_leave_result [OF l] consider (same) "s' = s"
    | (del) nm rows where "q_delete_player s (parseInt (JStr ident)) nm = Inr (rows, s')"
    by blast
  then show ?thesis
  proof cases
    case same
    with cap show ?thesis by simp
  next
    case del
    from q_delete_player_state [OF del] obtain k where
      m: "matches s' = matches s"
      and p: "players s' = filter (\<lambda>p. \<not> (match_id p = k \<and> name p = nm)) (players s)"
      by auto
    show ?thesis
    proof (rule capacity_ok_shrink [OF _ _ cap])
      show "set (matches s') \<subseteq> set (matches s)" by (simp add: m)
      show "player_count s' j \<le> player_count s j" for j
        by (simp add: player_count_def p length_filter_filter_le)
    qed
  qed
qed

lemma delete_match_result:
  assumes "delete_match s ident = (r, s')"
  shows "s' = s \<or>
    (\<exists>s1. q_delete_players_of s (parseInt (JStr ident)) = Inr s1
       \<and> (s' = s1 \<or> (\<exists>rows. q_delete_match s1 (parseInt (JStr ident)) = Inr (rows, s'))))"
  using assms
  by (auto simp: delete_match_def Let_def split: option.splits if_splits sum.splits prod.splits)

lemma schema_ok_delete_match_handler:
  assumes "schema_ok s" "delete_match s ident = (r, s')"
  shows "schema_ok s'"
  using delete_match_result [OF assms(2)] assms(1) schema_ok_delete_players_of
    schema_ok_delete_match by blast

lemma capacity_ok_delete_players_of:
  assumes cap: "capacity_ok s" and q: "q_delete_players_of s mid = Inr s'"
  shows "capacity_ok s'"
proof -
  from q obtain k where s': "s' = s\<lparr>players := filter (\<lambda>p. match_id p \<noteq> k) (players s)\<rparr>"
    by (auto simp: q_delete_players_of_def split: sum.splits)
  show ?thesis
  proof (rule capacity_ok_shrink [OF _ _ cap])
    show "set (matches s') \<subseteq> set (matches s)" by (simp add: s')
    show "player_count s' j \<le> player_count s j" for j
      by (simp add: player_count_def s' length_filter_filter_le)
  qed
qed

lemma capacity_ok_delete_match:
  assumes cap: "capacity_ok s" and q: "q_delete_match s mid = Inr (rows, s')"
  shows "capacity_ok s'"
proof -
  from q obtain k where s': "s' = s\<lparr>matches := filter (\<lambda>m. m_id m \<noteq> k) (matches s),
                 players := (if list_ex (\<lambda>m. m_id m = k) (matches s)
                    then filter (\<lambda>p. match_id p \<noteq> k) (players s) else players s)\<rparr>"
    by (auto simp: q_delete_match_def split: sum.splits)
  show ?thesis
  proof (rule capacity_ok_shrink [OF _ _ cap])
    show "set (matches s') \<subseteq> set (matches s)" by (auto simp: s')
    show "player_count s' j \<le> player_count s j" for j
      by (simp add: player_count_def s' length_filter_filter_le)
  qed
qed

lemma capacity_ok_delete_match_handler:
  assumes "capacity_ok s" "delete_match s ident = (r, s')"
  shows "capacity_ok s'"
  using delete_match_result [OF assms(2)] assms(1) capacity_ok_delete_players_of
    capacity_ok_delete_match by blast

lemma exec_preserves:
  assumes "schema_ok s" "capacity_ok s"
  shows "schema_ok (exec pg s x) \<and> capacity_ok (exec pg s x)"
proof (cases x)
  case (CreateMatch now body)
  with assms show ?thesis
    using schema_ok_post_matches capacity_ok_post_matches
    by (metis exec.simps(1) prod.collapse)
next
  case (Join now ident body)
  with assms show ?thesis
    using schema_ok_post_join capacity_ok_post_join
    by (metis exec.simps(2) prod.collapse)
next
  case (Leave ident body)
  with assms show ?thesis
    using schema_ok_post_leave capacity_ok_post_leave
    by (metis exec.simps(3) prod.collapse)
next
  case (DeleteMatch ident)
  with assms show ?thesis
    using schema_ok_delete_match_handler capacity_ok_delete_match_handler
    by (metis exec.simps(4) prod.collapse)
qed

lemma run_preserves:
  "schema_ok s \<Longrightarrow> capacity_ok s \<Longrightarrow> schema_ok (run pg s ops) \<and> capacity_ok (run pg s ops)"
proof (induction ops arbitrary: s)
  case Nil
  then show ?case by (simp add: run_def)
next
  case (Cons x ops)
  from exec_preserves [OF Cons.prems, of pg x] Cons.IH [of "exec pg s x"]
  show ?case by (simp add: run_def)
qed

lemma empty_store_ok: "schema_ok empty_store \<and> capacity_ok empty_store"
  by (simp add: schema_ok_def capacity_ok_def empty_store_def)

lemma filter_by_key:
  assumes "distinct (map f xs)" "x \<in> set xs"
  shows "filter (\<lambda>y. f y = f x) xs = [x]"
  using assms
proof (induction xs)
  case Nil
  then show ?case by simp
next
  case (Cons a xs)
  show ?case
  proof (cases "a = x")
    case True
    from Cons.prems True have notin: "f x \<notin> f ` set xs" by simp
    have "f y \<noteq> f x" if "y \<in> set xs" for y
      using that notin by (metis imageI)
    then have "filter (\<lambda>y. f y = f x) xs = []" by (simp add: filter_empty_conv)
    with True show ?thesis by simp
  next
    case False
    with Cons.prems have "x \<in> set xs" "distinct (map f xs)" "f a \<noteq> f x"
      by (auto simp: image_iff)
    with Cons.IH show ?thesis by simp
  qed
qed

lemma q_match_count_one:
  assumes "schema_ok s" "m \<in> set (matches s)" "int4_in mid = Inr (m_id m)"
  shows "q_match_count s mid = Inr [(m, player_count s (m_id m))]"
proof -
  from assms(1) have "distinct (map m_id (matches s))" by (simp add: schema_ok_def)
  from filter_by_key [OF this assms(2)] q_match_count_Inr [OF assms(3), of s]
  show ?thesis by simp
qed

lemma join_full:
  assumes "schema_ok s" "m \<in> set (matches s)" "int4_in (parseInt (JStr ident)) = Inr (m_id m)"
    and "\<not> falsy (jb_name b)" "\<not> falsy (jb_contact b)"
    and "players_needed m \<le> int (player_count s (m_id m))"
  shows "post_join s now ident (Some b) = ((400, ErrorBody ''Match is full!''), s)"
  using assms(4-6) q_match_count_one [OF assms(1-3)]
  by (simp add: post_join_def)

section \<open>Evaluating the handlers on the examples\<close>

lemmas eval_defs = post_matches_def post_join_def post_leave_def delete_match_def get_match_def
  get_matches_def q_insert_match_def q_insert_player_def q_match_count_def q_existing_player_def
  q_aggregate_def q_aggregates_def q_delete_player_def q_delete_players_of_def q_delete_match_def
  aggregate_of_def left_join_players_def count_p_id_def json_agg_players_def coalesce_players_def
  int4_in_def text_in_def pg_text_def varchar255_def to_player_json_def parseInt_def parseInt_string_def is_space_def digit_of_def
  falsy_def text_of_def Let_def

lemmas demo_defs = pg_demo_def demo_match_def demo_row_def body_A_def body_B_def empty_store_def
  store_created_def store_joined_def demo_reply_def demo_agg_def

lemma demo_created:
  "post_matches pg_demo empty_store 10 (Some demo_match) = ((200, Created demo_reply), store_created)"
  by (simp add: eval_defs demo_defs)

lemma demo_joined:
  "post_join store_created 11 ''1'' (Some body_A) = ((200, AggregateBody demo_agg), store_joined)"
  by (simp add: eval_defs demo_defs)

lemma run_demo_ops: "run pg_demo empty_store demo_ops = store_joined"
  by (simp add: run_def demo_ops_def demo_created demo_joined)

section \<open>Further lemmas about the handlers\<close>

lemma text_in_pg_text: "pg_text x \<Longrightarrow> text_in x = Inr x"
  by (simp add: text_in_def)

lemma filter_none: "\<not> list_ex P xs \<Longrightarrow> filter (\<lambda>x. \<not> P x) xs = xs"
  by (simp add: list_ex_iff filter_id_conv)

lemma filter_none_eq: "\<not> list_ex P xs \<Longrightarrow> filter P xs = []"
  by (simp add: list_ex_iff filter_empty_conv)

lemma filter_some: "list_ex P xs \<Longrightarrow> filter P xs \<noteq> []"
  by (simp add: list_ex_iff filter_empty_conv)

lemma post_leave_found:
  assumes k: "int4_in (parseInt (JStr ident)) = Inr k"
    and b: "\<not> falsy (lb_name b)" and nm: "pg_text (text_of (lb_name b))"
    and ex: "list_ex (\<lambda>p. match_id p = k \<and> name p = text_of (lb_name b)) (players s)"
  shows "post_leave s ident (Some b) =
     ((200, Message ''Left match successfully''),
      s\<lparr>players := filter (\<lambda>p. \<not> (match_id p = k \<and> name p = text_of (lb_name b))) (players s)\<rparr>)"
  using k b text_in_pg_text [OF nm] filter_some [OF ex]
  by (simp add: post_leave_def q_delete_player_def)

lemma post_leave_not_found:
  assumes k: "int4_in (parseInt (JStr ident)) = Inr k"
    and b: "\<not> falsy (lb_name b)" and nm: "pg_text (text_of (lb_name b))"
    and ex: "\<not> list_ex (\<lambda>p. match_id p = k \<and> name p = text_of (lb_name b)) (players s)"
  shows "post_leave s ident (Some b) = ((404, ErrorBody ''Player not found in this match''), s)"
  using k b text_in_pg_text [OF nm] filter_none_eq [OF ex] filter_none [OF ex]
  by (simp add: post_leave_def q_delete_player_def)

lemma schema_ok_store_joined: "schema_ok store_joined"
  by (simp add: schema_ok_def demo_defs)

lemma parse_one: "int4_in (parseInt (JStr ''1'')) = Inr 1"
  by (simp add: eval_defs)

lemma no_orphans:
  assumes ok: "schema_ok s" and "\<not> list_ex (\<lambda>m. m_id m = k) (matches s)"
  shows "\<not> list_ex (\<lambda>p. match_id p = k) (players s)"
  using assms by (auto simp: schema_ok_def list_all_iff list_ex_iff)

lemma delete_match_found:
  assumes k: "int4_in (parseInt (JStr ident)) = Inr k"
    and ex: "list_ex (\<lambda>m. m_id m = k) (matches s)"
  shows "delete_match s ident =
     ((200, Message ''Match deleted successfully''),
      s\<lparr>players := filter (\<lambda>p. match_id p \<noteq> k) (players s),
        matches := filter (\<lambda>m. m_id m \<noteq> k) (matches s)\<rparr>)"
  using k ex filter_some [OF ex]
  by (simp add: delete_match_def q_delete_players_of_def q_delete_match_def)

lemma delete_match_not_found:
  assumes ok: "schema_ok s" and k: "int4_in (parseInt (JStr ident)) = Inr k"
    and ex: "\<not> list_ex (\<lambda>m. m_id m = k) (matches s)"
  shows "delete_match s ident = ((404, ErrorBody ''Match not found''), s)"
proof -
  from no_orphans [OF ok ex] have "filter (\<lambda>p. \<not> match_id p = k) (players s) = players s"
    by (rule filter_none)
  moreover from ex have "filter (\<lambda>m. \<not> m_id m = k) (matches s) = matches s"
    by (rule filter_none)
  moreover note filter_none_eq [OF ex]
  ultimately show ?thesis
    using k ex
    by (simp add: delete_match_def q_delete_players_of_def q_delete_match_def)
qed

lemma plain_textD:
  assumes "plain_text x"
  shows "text_in x = Inr x" "varchar255 x = Inr x" "x \<noteq> []" "\<not> falsy (Some x)" "text_of (Some x) = x"
    "pg_text x"
  using assms by (simp_all add: plain_text_def text_in_def varchar255_def falsy_def text_of_def pg_text_def)

lemma q_insert_player_success:
  assumes k: "int4_in mid = Inr k" and nm: "plain_text nm" and ct: "plain_text ct"
    and seq: "players_id_seq s + 1 < 2 ^ 31"
    and new: "\<not> list_ex (\<lambda>p. match_id p = k \<and> name p = nm) (players s)"
    and fk: "list_ex (\<lambda>m. m_id m = k) (matches s)"
  shows "q_insert_player s now mid nm ct = (Inr (), joined s now k nm ct)"
  using k plain_textD(1,2) [OF nm] plain_textD(1,2) [OF ct] seq new fk
  by (simp add: q_insert_player_def joined_def Let_def)

lemma q_aggregate_one:
  assumes "schema_ok s" "m \<in> set (matches s)" "int4_in mid = Inr (m_id m)"
  shows "q_aggregate s mid = Inr [aggregate_of s m]"
proof -
  from assms(1) have "distinct (map m_id (matches s))" by (simp add: schema_ok_def)
  from filter_by_key [OF this assms(2)] assms(3)
  show ?thesis by (simp add: q_aggregate_def)
qed

lemma post_join_success:
  assumes ok: "schema_ok s" and m: "m \<in> set (matches s)"
    and k: "int4_in (parseInt (JStr ident)) = Inr (m_id m)"
    and nm: "plain_text nm" and ct: "plain_text ct"
    and room: "int (player_count s (m_id m)) < players_needed m"
    and new: "\<not> list_ex (\<lambda>p. match_id p = m_id m \<and> name p = nm) (players s)"
    and seq: "players_id_seq s + 1 < 2 ^ 31"
  shows "post_join s now ident (Some \<lparr>jb_name = Some nm, jb_contact = Some ct\<rparr>) =
     ((200, AggregateBody (aggregate_of (joined s now (m_id m) nm ct) m)),
      joined s now (m_id m) nm ct)"
proof -
  from m have fk: "list_ex (\<lambda>x. m_id x = m_id m) (matches s)"
    by (auto simp: list_ex_iff)
  have ins: "q_insert_player s now (parseInt (JStr ident)) nm ct
      = (Inr (), joined s now (m_id m) nm ct)"
    by (rule q_insert_player_success [OF k nm ct seq new fk])
  have ok': "schema_ok (joined s now (m_id m) nm ct)"
    by (rule schema_ok_insert_player [OF ok ins])
  have m': "m \<in> set (matches (joined s now (m_id m) nm ct))"
    using m by (simp add: joined_def)
  have ex: "q_existing_player s (parseInt (JStr ident)) nm = Inr []"
    using k plain_textD(1) [OF nm] filter_none_eq [OF new]
    by (simp add: q_existing_player_def)
  show ?thesis
    using room plain_textD(3) [OF nm] plain_textD(3) [OF ct]
    by (simp add: post_join_def q_match_count_one [OF ok m k] ex ins
        q_aggregate_one [OF ok' m' k] falsy_def text_of_def)
qed

lemma player_count_joined:
  "player_count (joined s now k nm ct) j = player_count s j + (if j = k then 1 else 0)"
  by (simp add: player_count_def joined_def)

lemma post_matches_created:
  assumes "post_matches pg s now body = ((200, Created c), s')"
  shows "\<exists>row. s' = s\<lparr>matches_id_seq := matches_id_seq s + 1, matches := matches s @ [row]\<rparr>
        \<and> m_id row = matches_id_seq s + 1 \<and> cr_id c = m_id row
        \<and> playersNeeded c = players_needed row \<and> cr_players c = []
        \<and> created_at row = now \<and> createdAt c = now"
  using assms
  by (auto simp: post_matches_def q_insert_match_def Let_def
      split: option.splits if_splits sum.splits prod.splits)

lemma post_join_okD:
  assumes "post_join s now ident (Some b) = ((200, AggregateBody agg), s')"
  shows "\<not> falsy (jb_name b)" "\<not> falsy (jb_contact b)"
    "\<exists>m c rest. q_match_count s (parseInt (JStr ident)) = Inr ((m, c) # rest)
        \<and> int c < players_needed m"
    "q_existing_player s (parseInt (JStr ident)) (text_of (jb_name b)) = Inr []"
    "q_insert_player s now (parseInt (JStr ident)) (text_of (jb_name b))
        (text_of (jb_contact b)) = (Inr (), s')"
    "\<exists>rest. q_aggregate s' (parseInt (JStr ident)) = Inr (agg # rest)"
  using assms
  by (auto simp: post_join_def Let_def
      split: option.splits if_splits sum.splits list.splits prod.splits)

lemma varchar255_short: "length x \<le> 255 \<Longrightarrow> varchar255 x = Inr x"
  by (simp add: varchar255_def)

lemma post_matches_missing:
  "missing_fields b \<Longrightarrow>
   post_matches pg s now (Some b) = ((400, ErrorBody ''Missing required fields''), s)"
  by (simp add: post_matches_def missing_fields_def)

lemma post_matches_rejected:
  assumes present: "\<not> missing_fields b"
    and bad: "case parseInt (mb_playersNeeded b) of None \<Rightarrow> True | Some k \<Rightarrow> \<not> (0 < k \<and> k \<le> 20)"
  shows "fst (post_matches pg s now (Some b)) = (500, ErrorBody ''Failed to create match'')
    \<and> matches (snd (post_matches pg s now (Some b))) = matches s
    \<and> players (snd (post_matches pg s now (Some b))) = players s"
proof -
  from present obtain c where c: "mb_creator b = Some c"
    by (auto simp: missing_fields_def split: option.splits)
  obtain r s' where q: "q_insert_match pg s now (text_of (mb_location b)) (text_of (mb_date b))
      (if falsy (mb_time b) then None else mb_time b) (parseInt (mb_playersNeeded b))
      (text_of (cb_name c)) (text_of (cb_contact c)) = (r, s')"
    by (cases "q_insert_match pg s now (text_of (mb_location b)) (text_of (mb_date b))
      (if falsy (mb_time b) then None else mb_time b) (parseInt (mb_playersNeeded b))
      (text_of (cb_name c)) (text_of (cb_contact c))") simp
  note res = q_insert_match_result [OF q]
  have "\<exists>e. r = Inl e"
  proof (cases r)
    case (Inl e)
    then show ?thesis by simp
  next
    case (Inr row)
    with res have "int4_in (parseInt (mb_playersNeeded b)) = Inr (players_needed row)"
      "players_needed row > 0" "players_needed row \<le> 20"
      by auto
    with bad show ?thesis
      by (auto simp: int4_in_def split: option.splits if_splits)
  qed
  then obtain e where e: "r = Inl e" by blast
  with res have "matches s' = matches s" "players s' = players s" by auto
  moreover have "post_matches pg s now (Some b) = ((500, ErrorBody ''Failed to create match''), s')"
    using present c q e
    by (simp add: post_matches_def missing_fields_def)
  ultimately show ?thesis by simp
qed

lemma post_matches_success:
  assumes b: "b = \<lparr>mb_location = Some loc, mb_date = Some d, mb_time = t, mb_playersNeeded = pn,
        mb_creator = Some \<lparr>cb_name = Some cn, cb_contact = Some cc\<rparr>\<rparr>"
    and texts: "plain_text loc" "plain_text cn" "plain_text cc"
    and dt: "d \<noteq> []" "pg_text d" "date_in pg d = Some dv"
    and tm: "if falsy t then tv = None
             else pg_text (text_of t) \<and> map_option Some (time_in pg (text_of t)) = Some tv"
    and pn: "truthy pn" "parseInt pn = Some k" "0 < k" "k \<le> 20"
    and seq: "matches_id_seq s + 1 < 2 ^ 31"
  shows "post_matches pg s now (Some b) =
     ((200, Created
         \<lparr>cr_id = matches_id_seq s + 1, cr_location = loc, cr_date = dv, cr_time = tv,
          playersNeeded = k, cr_creator = \<lparr>cj_name = cn, cj_contact = cc\<rparr>, cr_players = [],
          createdAt = now\<rparr>),
      s\<lparr>matches_id_seq := matches_id_seq s + 1,
        matches := matches s @
          [\<lparr>m_id = matches_id_seq s + 1, location = loc, date = dv, time = tv,
            players_needed = k, creator_name = cn, creator_contact = cc, created_at = now\<rparr>]\<rparr>)"
proof -
  have k4: "int4_in (Some k) = Inr k"
    using pn(3,4) by (simp add: int4_in_def)
  have tq: "(case (if falsy t then None else t) of
              None \<Rightarrow> Some None
            | Some t0 \<Rightarrow>
                (case text_in t0 of
                   Inl e \<Rightarrow> None
                 | Inr t1 \<Rightarrow> (case time_in pg t1 of None \<Rightarrow> None | Some tv \<Rightarrow> Some (Some tv))))
            = Some tv"
    using tm
    by (cases t) (auto simp: falsy_def text_of_def text_in_pg_text split: option.splits)
  have q: "q_insert_match pg s now loc d (if falsy t then None else t) (Some k) cn cc =
     (Inr \<lparr>m_id = matches_id_seq s + 1, location = loc, date = dv, time = tv,
            players_needed = k, creator_name = cn, creator_contact = cc, created_at = now\<rparr>,
      s\<lparr>matches_id_seq := matches_id_seq s + 1,
        matches := matches s @
          [\<lparr>m_id = matches_id_seq s + 1, location = loc, date = dv, time = tv,
            players_needed = k, creator_name = cn, creator_contact = cc, created_at = now\<rparr>]\<rparr>)"
    unfolding q_insert_match_def tq
    using plain_textD(1,2) [OF texts(1)] plain_textD(1,2) [OF texts(2)]
      plain_textD(1,2) [OF texts(3)] text_in_pg_text [OF dt(2)] dt(3) k4 seq pn(3,4)
    by (simp add: Let_def)
  have d': "\<not> falsy (Some d)" "text_of (Some d) = d"
    using dt(1) by (simp_all add: falsy_def text_of_def)
  show ?thesis
    using plain_textD(4,5) [OF texts(1)] plain_textD(4,5) [OF texts(2)]
      plain_textD(4,5) [OF texts(3)] d' pn(1,2) q
    by (cases "falsy t") (simp_all add: post_matches_def b)
qed

lemma aggregate_facts:
  "creator (aggregate_of s m) = \<lparr>cj_name = creator_name m, cj_contact = creator_contact m\<rparr>"
  "sorted (map joinedAt (agg_players (aggregate_of s m)))"
  "mset (agg_players (aggregate_of s m))
     = mset (map to_player_json (filter (\<lambda>p. match_id p = m_id m) (players s)))"
  "player_count s (m_id m) = 0 \<Longrightarrow> agg_players (aggregate_of s m) = []"
proof -
  show "creator (aggregate_of s m) = \<lparr>cj_name = creator_name m, cj_contact = creator_contact m\<rparr>"
    by (simp add: aggregate_of_def)
  show "sorted (map joinedAt (agg_players (aggregate_of s m)))"
  proof -
    have "map joinedAt (map to_player_json xs) = map joined_at xs" for xs
      by (simp add: to_player_json_def)
    then show ?thesis
      by (simp only: agg_players_of sorted_sort_key)
  qed
  show "mset (agg_players (aggregate_of s m))
     = mset (map to_player_json (filter (\<lambda>p. match_id p = m_id m) (players s)))"
    by (simp add: agg_players_of)
  show "player_count s (m_id m) = 0 \<Longrightarrow> agg_players (aggregate_of s m) = []"
    by (simp add: agg_players_of player_count_def)
qed

lemma newest_first:
  "sorted_wrt (\<lambda>a a'. created_at (agg_row a') \<le> created_at (agg_row a)) (q_aggregates s)"
proof -
  have "sorted (map created_at (sort_key created_at (matches s)))"
    by (rule sorted_sort_key)
  then have "sorted_wrt (\<lambda>m m'. created_at m \<le> created_at m') (sort_key created_at (matches s))"
    by (simp add: sorted_map)
  then have "sorted_wrt (\<lambda>m m'. created_at m' \<le> created_at m) (rev (sort_key created_at (matches s)))"
    by (simp add: sorted_wrt_rev)
  then show ?thesis
    by (simp add: q_aggregates_def sorted_wrt_map)
qed

lemma every_match_listed: "mset (map agg_row (q_aggregates s)) = mset (matches s)"
proof -
  have "map agg_row (q_aggregates s) = rev (sort_key created_at (matches s))"
    by (simp add: q_aggregates_def comp_def)
  then show ?thesis by simp
qed










text \<open>
  Run alone, the four steps of a join request are the join handler: same reply, same store.
\<close>

lemma join_steps_are_the_handler:
  "run_joins s [JoinStart ident body] [(0, now), (0, now), (0, now), (0, now)]
     = ([JoinDone (fst (post_join s now ident body))], snd (post_join s now ident body))"
  by (simp add: post_join_def Let_def
      split: option.splits sum.splits list.splits prod.splits)

lemma get_me_unmapped:
  assumes "sessions a (text_of (bearer_token h)) = None"
  shows "fst (get_me a h) = 401"
  using assms by (simp add: get_me_def getUserFromToken_def Let_def)

lemma get_me_no_token: "falsy (bearer_token h) \<Longrightarrow> fst (get_me a h) = 401"
  by (simp add: get_me_def)

lemma logout_unmaps:
  "\<not> falsy (bearer_token h) \<Longrightarrow>
   sessions (snd (post_logout a h)) (text_of (bearer_token h)) = None"
  by (simp add: post_logout_def)

lemma demo_token: "bearer_token (Some ''Bearer session_k3'') = Some ''session_k3''"
  by (simp add: bearer_token_def)

lemma schema_ok_store_created: "schema_ok store_created"
  by (simp add: schema_ok_def demo_defs)

lemma plain_text_demo:
  "plain_text ''A''" "plain_text ''a@x''" "plain_text ''B''" "plain_text ''b@x''"
  "plain_text ''Imphal Stadium''" "plain_text ''Rahul''" "plain_text ''+91''"
  by (simp_all add: plain_text_def pg_text_def)

lemma demo_aggregates: "q_aggregates store_joined = [demo_agg]"
  by (simp add: eval_defs demo_defs demo_agg_def)

text \<open>
  A request sequence keeps the schema; a join for a name the store already records for
  the match is refused and changes nothing; a join that succeeded has recorded its name.
\<close>

lemma exec_schema_ok: "schema_ok s \<Longrightarrow> schema_ok (exec pg s x)"
proof (cases x)
  case (CreateMatch now body)
  assume "schema_ok s"
  with CreateMatch show ?thesis
    using schema_ok_post_matches by (metis exec.simps(1) prod.collapse)
next
  case (Join now ident body)
  assume "schema_ok s"
  with Join show ?thesis
    using schema_ok_post_join by (metis exec.simps(2) prod.collapse)
next
  case (Leave ident body)
  assume "schema_ok s"
  with Leave show ?thesis
    using schema_ok_post_leave by (metis exec.simps(3) prod.collapse)
next
  case (DeleteMatch ident)
  assume "schema_ok s"
  with DeleteMatch show ?thesis
    using schema_ok_delete_match_handler by (metis exec.simps(4) prod.collapse)
qed

lemma run_schema_ok: "schema_ok s \<Longrightarrow> schema_ok (run pg s ops)"
proof (induction ops arbitrary: s)
  case Nil
  then show ?case by (simp add: run_def)
next
  case (Cons x ops)
  from Cons.IH [OF exec_schema_ok [OF Cons.prems, of pg x]]
  show ?case by (simp add: run_def)
qed

lemma join_recorded_rejected:
  assumes ok: "schema_ok s"
    and row: "list_ex (\<lambda>p. match_id p = k \<and> name p = nm) (players s)"
    and ident: "int4_in (parseInt (JStr ident)) = Inr k"
    and same: "jb_name b' = Some nm" and ntext: "pg_text nm"
  shows "\<exists>m. m \<in> set (matches s) \<and> m_id m = k
      \<and> post_join s now ident (Some b') =
          ((400, ErrorBody
              (if nm = [] \<or> falsy (jb_contact b') then ''Name and contact required''
               else if players_needed m \<le> int (player_count s k) then ''Match is full!''
               else ''You have already joined this match'')), s)"
    and "length (filter (\<lambda>p. match_id p = k \<and> name p = nm) (players s)) = 1"
proof -
  from row obtain p where p: "p \<in> set (players s)" "match_id p = k" "name p = nm"
    by (auto simp: list_ex_iff)
  with ok obtain m where m: "m \<in> set (matches s)" "m_id m = k"
    by (auto simp: schema_ok_def list_all_iff list_ex_iff)
  from ok have "distinct (map (\<lambda>p. (match_id p, name p)) (players s))"
    by (simp add: schema_ok_def)
  from filter_by_key [OF this p(1)] p(2,3)
  have one: "filter (\<lambda>q. match_id q = k \<and> name q = nm) (players s) = [p]"
    by simp
  then show "length (filter (\<lambda>p. match_id p = k \<and> name p = nm) (players s)) = 1"
    by simp
  have idm: "int4_in (parseInt (JStr ident)) = Inr (m_id m)"
    using ident m(2) by simp
  have cnt: "q_match_count s (parseInt (JStr ident)) = Inr [(m, player_count s k)]"
    using q_match_count_one [OF ok m(1) idm] m(2) by simp
  have ex: "q_existing_player s (parseInt (JStr ident)) nm = Inr [p]"
    using ident text_in_pg_text [OF ntext] one by (simp add: q_existing_player_def)
  have nb: "falsy (jb_name b') = (nm = [])" "text_of (jb_name b') = nm"
    using same by (simp_all add: falsy_def text_of_def)
  have "post_join s now ident (Some b') =
          ((400, ErrorBody
              (if nm = [] \<or> falsy (jb_contact b') then ''Name and contact required''
               else if players_needed m \<le> int (player_count s k) then ''Match is full!''
               else ''You have already joined this match'')), s)"
    by (simp add: post_join_def nb cnt ex)
  with m show "\<exists>m. m \<in> set (matches s) \<and> m_id m = k
      \<and> post_join s now ident (Some b') =
          ((400, ErrorBody
              (if nm = [] \<or> falsy (jb_contact b') then ''Name and contact required''
               else if players_needed m \<le> int (player_count s k) then ''Match is full!''
               else ''You have already joined this match'')), s)"
    by blast
qed

lemma join_records_row:
  assumes first: "post_join s now ident (Some b) = ((200, AggregateBody agg), s')"
    and nm: "jb_name b = Some nm" and short: "length nm \<le> 255"
  shows "nm \<noteq> []" "pg_text nm"
    "\<exists>k. int4_in (parseInt (JStr ident)) = Inr k
       \<and> list_ex (\<lambda>p. match_id p = k \<and> name p = nm) (players s')"
proof -
  have t: "text_of (jb_name b) = nm" using nm by (simp add: text_of_def)
  note d = post_join_okD [OF first, unfolded t]
  from d(1) nm show "nm \<noteq> []" by (simp add: falsy_def)
  from q_insert_player_result [OF d(5)] have "text_in nm = Inr nm" by auto
  then show "pg_text nm" by (simp add: text_in_def split: if_splits)
  from q_insert_player_result [OF d(5)] short
  show "\<exists>k. int4_in (parseInt (JStr ident)) = Inr k
       \<and> list_ex (\<lambda>p. match_id p = k \<and> name p = nm) (players s')"
    by (auto simp: varchar255_short)
qed

lemma roomy_first:
  "post_join store_roomy 11 ''1'' (Some body_A)
     = ((200, AggregateBody (aggregate_of store_roomy_A (demo_row\<lparr>players_needed := 3\<rparr>))),
        store_roomy_A)"
  by (simp add: eval_defs demo_defs store_roomy_def store_roomy_A_def)

lemma roomy_then_B:
  "run pg_demo store_roomy_A [Join 12 ''1'' (Some body_B)] = store_roomy_AB"
  by (simp add: run_def eval_defs demo_defs store_roomy_def store_roomy_A_def store_roomy_AB_def)

section \<open>The claims\<close>

text \<open>
  Claim C1. Whatever sequence of CreateMatch, Join, Leave and DeleteMatch requests runs,
  one after the other, on a store that keeps its schema and the capacity limit (the empty
  store does), every match of the resulting store has at most \<^verbatim>\<open>players_needed\<close> player
  rows, the aggregates of \<^verbatim>\<open>GET /matches\<close> list at most that many players, and a Join
  with name and contact for a match whose count has reached its quota is answered
  400 \<^verbatim>\<open>Match is full!\<close> and changes nothing.
\<close>

theorem capacity_never_exceeded:
  assumes "schema_ok s0" "capacity_ok s0"
  shows "(\<forall>m\<in>set (matches (run pg s0 ops)).
            int (player_count (run pg s0 ops) (m_id m)) \<le> players_needed m)
     \<and> (\<forall>a\<in>set (q_aggregates (run pg s0 ops)).
            int (length (agg_players a)) \<le> players_needed (agg_row a))
     \<and> (\<forall>m\<in>set (matches (run pg s0 ops)). \<forall>now ident b.
            int4_in (parseInt (JStr ident)) = Inr (m_id m)
            \<and> \<not> falsy (jb_name b) \<and> \<not> falsy (jb_contact b)
            \<and> players_needed m \<le> int (player_count (run pg s0 ops) (m_id m))
            \<longrightarrow> post_join (run pg s0 ops) now ident (Some b)
                  = ((400, ErrorBody ''Match is full!''), run pg s0 ops))"
proof -
  define s where "s = run pg s0 ops"
  from run_preserves [OF assms, of pg ops] have ok: "schema_ok s" and cap: "capacity_ok s"
    by (simp_all add: s_def)
  from cap have 1: "\<forall>m\<in>set (matches s). int (player_count s (m_id m)) \<le> players_needed m"
    by (simp add: capacity_ok_def list_all_iff)
  have 2: "\<forall>a\<in>set (q_aggregates s). int (length (agg_players a)) \<le> players_needed (agg_row a)"
  proof
    fix a assume "a \<in> set (q_aggregates s)"
    then obtain m where "m \<in> set (matches s)" "a = aggregate_of s m"
      by (auto simp: q_aggregates_def)
    with 1 show "int (length (agg_players a)) \<le> players_needed (agg_row a)"
      by (simp add: length_agg_players)
  qed
  have 3: "\<forall>m\<in>set (matches s). \<forall>now ident b.
            int4_in (parseInt (JStr ident)) = Inr (m_id m)
            \<and> \<not> falsy (jb_name b) \<and> \<not> falsy (jb_contact b)
            \<and> players_needed m \<le> int (player_count s (m_id m))
            \<longrightarrow> post_join s now ident (Some b) = ((400, ErrorBody ''Match is full!''), s)"
  proof (intro ballI allI impI)
    fix m now ident and b :: join_body
    assume m: "m \<in> set (matches s)"
      and h: "int4_in (parseInt (JStr ident)) = Inr (m_id m)
            \<and> \<not> falsy (jb_name b) \<and> \<not> falsy (jb_contact b)
            \<and> players_needed m \<le> int (player_count s (m_id m))"
    from h have h1: "int4_in (parseInt (JStr ident)) = Inr (m_id m)"
      and h2: "\<not> falsy (jb_name b)" and h3: "\<not> falsy (jb_contact b)"
      and h4: "players_needed m \<le> int (player_count s (m_id m))"
      by simp_all
    from join_full [OF ok m h1 h2 h3 h4]
    show "post_join s now ident (Some b) = ((400, ErrorBody ''Match is full!''), s)" .
  qed
  show ?thesis
    unfolding s_def [symmetric] by (rule conjI [OF 1 conjI [OF 2 3]])
qed

theorem capacity_never_exceeded_witness:
  "schema_ok empty_store \<and> capacity_ok empty_store
   \<and> run pg_demo empty_store demo_ops = store_joined
   \<and> int (player_count store_joined 1) \<le> 1
   \<and> list_all (\<lambda>a. int (length (agg_players a)) \<le> players_needed (agg_row a))
        (q_aggregates store_joined)
   \<and> post_join store_joined 12 ''1'' (Some body_B)
       = ((400, ErrorBody ''Match is full!''), store_joined)"
proof -
  have ok: "schema_ok empty_store" and cap: "capacity_ok empty_store"
    using empty_store_ok by simp_all
  note inst = capacity_never_exceeded [OF ok cap, of pg_demo demo_ops, unfolded run_demo_ops]
  have m: "matches store_joined = [demo_row]" "m_id demo_row = 1" "players_needed demo_row = 1"
    by (simp_all add: store_joined_def demo_row_def)
  have par: "int4_in (parseInt (JStr ''1'')) = Inr 1"
    by (simp add: eval_defs)
  have b: "\<not> falsy (jb_name body_B)" "\<not> falsy (jb_contact body_B)"
    by (simp_all add: body_B_def falsy_def)
  have c: "player_count store_joined 1 = 1"
    by (simp add: player_count_def store_joined_def)
  from inst have 1: "int (player_count store_joined 1) \<le> 1"
    by (simp add: m)
  from inst have 2: "list_all (\<lambda>a. int (length (agg_players a)) \<le> players_needed (agg_row a))
        (q_aggregates store_joined)"
    by (simp add: list_all_iff)
  from inst par b c have 3: "post_join store_joined 12 ''1'' (Some body_B)
       = ((400, ErrorBody ''Match is full!''), store_joined)"
    by (simp add: m)
  from ok cap run_demo_ops 1 2 3 show ?thesis by simp
qed

text \<open>
  Claim C2, as amended. In every store that keeps its schema and records a player row
  for a match id and name, a Join with that id and name inserts nothing and is answered
  400: \<^verbatim>\<open>Name and contact required\<close> when its contact is missing, \<^verbatim>\<open>Match is full!\<close>
  when the match has reached its quota (the capacity test comes before the duplicate
  test), and \<^verbatim>\<open>You have already joined this match\<close> otherwise; the store holds exactly
  one row for that id and name. A Join that succeeded with a name of at most 255
  characters has recorded that row, so this holds in the store it leaves and in every
  store that any further sequence of requests reaches from it, as long as the row is
  still there.
\<close>

theorem join_again_rejected:
  "(schema_ok s \<and> list_ex (\<lambda>p. match_id p = k \<and> name p = nm) (players s)
      \<and> int4_in (parseInt (JStr ident)) = Inr k \<and> jb_name b' = Some nm \<and> pg_text nm
    \<longrightarrow> (\<exists>m. m \<in> set (matches s) \<and> m_id m = k
            \<and> post_join s now' ident (Some b') =
                ((400, ErrorBody
                    (if nm = [] \<or> falsy (jb_contact b') then ''Name and contact required''
                     else if players_needed m \<le> int (player_count s k) then ''Match is full!''
                     else ''You have already joined this match'')), s))
        \<and> length (filter (\<lambda>p. match_id p = k \<and> name p = nm) (players s)) = 1)
   \<and> (schema_ok s0 \<and> post_join s0 now ident (Some b) = ((200, AggregateBody agg), s1)
        \<and> jb_name b = Some nm \<and> length nm \<le> 255 \<and> jb_name b' = Some nm
    \<longrightarrow> (\<exists>k. int4_in (parseInt (JStr ident)) = Inr k
            \<and> list_ex (\<lambda>p. match_id p = k \<and> name p = nm) (players s1)
            \<and> (\<forall>ops. list_ex (\<lambda>p. match_id p = k \<and> name p = nm) (players (run pg s1 ops))
                 \<longrightarrow> (\<exists>m. m \<in> set (matches (run pg s1 ops)) \<and> m_id m = k
                         \<and> post_join (run pg s1 ops) now' ident (Some b') =
                             ((400, ErrorBody
                                 (if falsy (jb_contact b') then ''Name and contact required''
                                  else if players_needed m \<le> int (player_count (run pg s1 ops) k)
                                    then ''Match is full!''
                                  else ''You have already joined this match'')),
                              run pg s1 ops))
                     \<and> length (filter (\<lambda>p. match_id p = k \<and> name p = nm)
                                 (players (run pg s1 ops))) = 1)))"
proof (intro conjI impI)
  assume h: "schema_ok s \<and> list_ex (\<lambda>p. match_id p = k \<and> name p = nm) (players s)
      \<and> int4_in (parseInt (JStr ident)) = Inr k \<and> jb_name b' = Some nm \<and> pg_text nm"
  then have ok: "schema_ok s"
    and row: "list_ex (\<lambda>p. match_id p = k \<and> name p = nm) (players s)"
    and ident: "int4_in (parseInt (JStr ident)) = Inr k"
    and same: "jb_name b' = Some nm" and ntext: "pg_text nm"
    by simp_all
  from join_recorded_rejected(1) [OF ok row ident same ntext]
  show "\<exists>m. m \<in> set (matches s) \<and> m_id m = k
            \<and> post_join s now' ident (Some b') =
                ((400, ErrorBody
                    (if nm = [] \<or> falsy (jb_contact b') then ''Name and contact required''
                     else if players_needed m \<le> int (player_count s k) then ''Match is full!''
                     else ''You have already joined this match'')), s)" .
  from join_recorded_rejected(2) [OF ok row ident same ntext]
  show "length (filter (\<lambda>p. match_id p = k \<and> name p = nm) (players s)) = 1" .
next
  assume h: "schema_ok s0 \<and> post_join s0 now ident (Some b) = ((200, AggregateBody agg), s1)
        \<and> jb_name b = Some nm \<and> length nm \<le> 255 \<and> jb_name b' = Some nm"
  then have ok0: "schema_ok s0"
    and first: "post_join s0 now ident (Some b) = ((200, AggregateBody agg), s1)"
    and nm: "jb_name b = Some nm" and short: "length nm \<le> 255"
    and same: "jb_name b' = Some nm"
    by simp_all
  note r = join_records_row [OF first nm short]
  from r(3) obtain k where k: "int4_in (parseInt (JStr ident)) = Inr k"
    and row1: "list_ex (\<lambda>p. match_id p = k \<and> name p = nm) (players s1)"
    by blast
  have ok1: "schema_ok s1" using schema_ok_post_join [OF ok0 first] .
  have later: "(\<exists>m. m \<in> set (matches (run pg s1 ops)) \<and> m_id m = k
                         \<and> post_join (run pg s1 ops) now' ident (Some b') =
                             ((400, ErrorBody
                                 (if falsy (jb_contact b') then ''Name and contact required''
                                  else if players_needed m \<le> int (player_count (run pg s1 ops) k)
                                    then ''Match is full!''
                                  else ''You have already joined this match'')),
                              run pg s1 ops))
                     \<and> length (filter (\<lambda>p. match_id p = k \<and> name p = nm)
                                 (players (run pg s1 ops))) = 1"
    if row: "list_ex (\<lambda>p. match_id p = k \<and> name p = nm) (players (run pg s1 ops))" for ops
  proof -
    have ok2: "schema_ok (run pg s1 ops)" using run_schema_ok [OF ok1] .
    from join_recorded_rejected(1) [OF ok2 row k same r(2), of now']
      join_recorded_rejected(2) [OF ok2 row k same r(2)] r(1)
    show ?thesis by simp
  qed
  show "\<exists>k. int4_in (parseInt (JStr ident)) = Inr k
            \<and> list_ex (\<lambda>p. match_id p = k \<and> name p = nm) (players s1)
            \<and> (\<forall>ops. list_ex (\<lambda>p. match_id p = k \<and> name p = nm) (players (run pg s1 ops))
                 \<longrightarrow> (\<exists>m. m \<in> set (matches (run pg s1 ops)) \<and> m_id m = k
                         \<and> post_join (run pg s1 ops) now' ident (Some b') =
                             ((400, ErrorBody
                                 (if falsy (jb_contact b') then ''Name and contact required''
                                  else if players_needed m \<le> int (player_count (run pg s1 ops) k)
                                    then ''Match is full!''
                                  else ''You have already joined this match'')),
                              run pg s1 ops))
                     \<and> length (filter (\<lambda>p. match_id p = k \<and> name p = nm)
                                 (players (run pg s1 ops))) = 1)"
    using k row1 later by blast
qed

text \<open>
  The amended claim at work: in the match with one seat the second join of A is refused
  as full; in the match with three seats A joins, B joins, and A's second join is refused
  as a duplicate.
\<close>

theorem join_again_rejected_witness:
  "schema_ok store_joined
   \<and> list_ex (\<lambda>p. match_id p = 1 \<and> name p = ''A'') (players store_joined)
   \<and> int4_in (parseInt (JStr ''1'')) = Inr 1
   \<and> jb_name body_A = Some ''A'' \<and> pg_text ''A''
   \<and> post_join store_joined 12 ''1'' (Some body_A)
       = ((400, ErrorBody ''Match is full!''), store_joined)
   \<and> schema_ok store_roomy
   \<and> post_join store_roomy 11 ''1'' (Some body_A)
       = ((200, AggregateBody (aggregate_of store_roomy_A (demo_row\<lparr>players_needed := 3\<rparr>))),
          store_roomy_A)
   \<and> length ''A'' \<le> 255
   \<and> run pg_demo store_roomy_A [Join 12 ''1'' (Some body_B)] = store_roomy_AB
   \<and> list_ex (\<lambda>p. match_id p = 1 \<and> name p = ''A'') (players store_roomy_AB)
   \<and> post_join store_roomy_AB 13 ''1'' (Some body_A)
       = ((400, ErrorBody ''You have already joined this match''), store_roomy_AB)
   \<and> length (filter (\<lambda>p. match_id p = 1 \<and> name p = ''A'') (players store_roomy_AB)) = 1
   \<and> length (players store_roomy_AB) = 2"
proof -
  have rowJ: "list_ex (\<lambda>p. match_id p = 1 \<and> name p = ''A'') (players store_joined)"
    by (simp add: store_joined_def)
  have nmA: "jb_name body_A = Some ''A''" by (simp add: body_A_def)
  have ptA: "pg_text ''A''" by (simp add: pg_text_def)
  have cA: "\<not> falsy (jb_contact body_A)" by (simp add: body_A_def falsy_def)
  have len: "length ''A'' \<le> 255" by simp
  have ok3: "schema_ok store_roomy"
    by (simp add: schema_ok_def store_roomy_def demo_defs)
  have rowAB: "list_ex (\<lambda>p. match_id p = 1 \<and> name p = ''A'') (players store_roomy_AB)"
    by (simp add: store_roomy_AB_def)
  have len2: "length (players store_roomy_AB) = 2"
    by (simp add: store_roomy_AB_def)
  note inst1 = join_again_rejected [of store_joined 1 "''A''" "''1''" body_A 12
      store_roomy 11 body_A "aggregate_of store_roomy_A (demo_row\<lparr>players_needed := 3\<rparr>)"
      store_roomy_A pg_demo]
  from inst1 schema_ok_store_joined rowJ parse_one nmA ptA
  obtain m where m: "m \<in> set (matches store_joined)"
    and j: "post_join store_joined 12 ''1'' (Some body_A) =
        ((400, ErrorBody
            (if ''A'' = [] \<or> falsy (jb_contact body_A) then ''Name and contact required''
             else if players_needed m \<le> int (player_count store_joined 1) then ''Match is full!''
             else ''You have already joined this match'')), store_joined)"
    by blast
  from m have "m = demo_row" by (simp add: store_joined_def)
  then have "players_needed m \<le> int (player_count store_joined 1)"
    by (simp add: demo_row_def player_count_def store_joined_def)
  with j cA have 1: "post_join store_joined 12 ''1'' (Some body_A)
       = ((400, ErrorBody ''Match is full!''), store_joined)"
    by simp
  note inst2 = join_again_rejected [of store_joined 1 "''A''" "''1''" body_A 13
      store_roomy 11 body_A "aggregate_of store_roomy_A (demo_row\<lparr>players_needed := 3\<rparr>)"
      store_roomy_A pg_demo]
  from inst2 ok3 roomy_first nmA len
  obtain k where k: "int4_in (parseInt (JStr ''1'')) = Inr k"
    and later: "\<forall>ops. list_ex (\<lambda>p. match_id p = k \<and> name p = ''A'') (players (run pg_demo store_roomy_A ops))
       \<longrightarrow> (\<exists>m. m \<in> set (matches (run pg_demo store_roomy_A ops)) \<and> m_id m = k
               \<and> post_join (run pg_demo store_roomy_A ops) 13 ''1'' (Some body_A) =
                   ((400, ErrorBody
                       (if falsy (jb_contact body_A) then ''Name and contact required''
                        else if players_needed m \<le> int (player_count (run pg_demo store_roomy_A ops) k)
                          then ''Match is full!''
                        else ''You have already joined this match'')),
                    run pg_demo store_roomy_A ops))
           \<and> length (filter (\<lambda>p. match_id p = k \<and> name p = ''A'')
                       (players (run pg_demo store_roomy_A ops))) = 1"
    by blast
  from k parse_one have k1: "k = 1" by simp
  from later [rule_format, of "[Join 12 ''1'' (Some body_B)]", unfolded roomy_then_B k1, OF rowAB]
  obtain m' where m': "m' \<in> set (matches store_roomy_AB)"
    and j': "post_join store_roomy_AB 13 ''1'' (Some body_A) =
        ((400, ErrorBody
            (if falsy (jb_contact body_A) then ''Name and contact required''
             else if players_needed m' \<le> int (player_count store_roomy_AB 1) then ''Match is full!''
             else ''You have already joined this match'')), store_roomy_AB)"
    and 3: "length (filter (\<lambda>p. match_id p = 1 \<and> name p = ''A'') (players store_roomy_AB)) = 1"
    by blast
  from m' have "m' = demo_row\<lparr>players_needed := 3\<rparr>"
    by (simp add: store_roomy_AB_def store_roomy_def)
  then have "\<not> players_needed m' \<le> int (player_count store_roomy_AB 1)"
    by (simp add: player_count_def store_roomy_AB_def)
  with j' cA have 2: "post_join store_roomy_AB 13 ''1'' (Some body_A)
       = ((400, ErrorBody ''You have already joined this match''), store_roomy_AB)"
    by simp
  show ?thesis
    by (intro conjI)
      (rule schema_ok_store_joined rowJ parse_one nmA ptA 1 ok3 roomy_first len roomy_then_B
        rowAB 2 3 len2)+
qed

text \<open>
  Claim C2 as it was stated fails: in a match with one seat A's join succeeds, and
  A's second join is answered \<^verbatim>\<open>Match is full!\<close>, not the duplicate error.
\<close>

theorem join_again_counterexample:
  "fst (post_join store_created 11 ''1'' (Some body_A)) = (200, AggregateBody demo_agg)
   \<and> post_join (snd (post_join store_created 11 ''1'' (Some body_A))) 12 ''1'' (Some body_A)
       = ((400, ErrorBody ''Match is full!''), store_joined)
   \<and> ErrorBody ''Match is full!'' \<noteq> ErrorBody ''You have already joined this match''"
proof -
  have 2: "post_join store_joined 12 ''1'' (Some body_A)
       = ((400, ErrorBody ''Match is full!''), store_joined)"
    by (simp add: eval_defs demo_defs)
  show ?thesis
    by (simp add: demo_joined 2)
qed

text \<open>
  Claim C3. The claim asks that two concurrent joins for the last seat never both
  succeed. The handler does not keep it: under \<open>race_schedule\<close> both requests for the one
  seat of \<open>store_created\<close> are answered 200 with the aggregate, and the match, whose quota
  is 1, ends with two player rows. Both stores keep every constraint of the schema, so
  the store raises no error on the way.
\<close>

theorem join_race_overbooks:
  "run_joins store_created [JoinStart ''1'' (Some body_A), JoinStart ''1'' (Some body_B)]
      race_schedule
     = ([JoinDone (200, AggregateBody (aggregate_of store_overbooked demo_row)),
         JoinDone (200, AggregateBody (aggregate_of store_overbooked demo_row))],
        store_overbooked)
   \<and> player_count store_overbooked (m_id demo_row) = 2
   \<and> players_needed demo_row = 1
   \<and> schema_ok store_created \<and> capacity_ok store_created
   \<and> schema_ok store_overbooked"
proof -
  have 1: "run_joins store_created [JoinStart ''1'' (Some body_A), JoinStart ''1'' (Some body_B)]
      race_schedule
     = ([JoinDone (200, AggregateBody (aggregate_of store_overbooked demo_row)),
         JoinDone (200, AggregateBody (aggregate_of store_overbooked demo_row))],
        store_overbooked)"
    by (simp add: race_schedule_def eval_defs demo_defs store_overbooked_def)
  have 2: "player_count store_overbooked (m_id demo_row) = 2"
    by (simp add: player_count_def store_overbooked_def demo_row_def)
  have 3: "players_needed demo_row = 1" by (simp add: demo_row_def)
  have 4: "schema_ok store_created" "capacity_ok store_created" "schema_ok store_overbooked"
    by (simp_all add: schema_ok_def capacity_ok_def player_count_def demo_defs store_overbooked_def)
  show ?thesis
    by (intro conjI) (rule 1 2 3 4)+
qed

text \<open>
  Claim C4. In a match just created with a quota of 1, whatever the store held before:
  A's join succeeds and lists A; B's join is then answered 400 \<^verbatim>\<open>Match is full!\<close> and
  changes nothing; A's leave succeeds; after it B's join succeeds and lists B, and so
  would a new join of A. The names and contacts are any two distinct names and any
  contacts the store takes as they are; the path parameter parses to the new match's id.
\<close>

theorem capacity_leave_scenario:
  assumes ok: "schema_ok s"
    and created: "post_matches pg s t0 body = ((200, Created c), s0)"
    and quota: "playersNeeded c = 1"
    and ident: "int4_in (parseInt (JStr ident)) = Inr (cr_id c)"
    and a: "plain_text a" "plain_text ca" and b: "plain_text b" "plain_text cb"
    and ab: "a \<noteq> b"
    and seq: "players_id_seq s + 2 < 2 ^ 31"
  shows "\<exists>s1 s2 s3 s3' agg1 agg3 agg3'.
      post_join s0 t1 ident (Some \<lparr>jb_name = Some a, jb_contact = Some ca\<rparr>)
        = ((200, AggregateBody agg1), s1)
    \<and> map pj_name (agg_players agg1) = [a]
    \<and> post_join s1 t2 ident (Some \<lparr>jb_name = Some b, jb_contact = Some cb\<rparr>)
        = ((400, ErrorBody ''Match is full!''), s1)
    \<and> post_leave s1 ident (Some \<lparr>lb_name = Some a\<rparr>)
        = ((200, Message ''Left match successfully''), s2)
    \<and> post_join s2 t3 ident (Some \<lparr>jb_name = Some b, jb_contact = Some cb\<rparr>)
        = ((200, AggregateBody agg3), s3)
    \<and> map pj_name (agg_players agg3) = [b]
    \<and> post_join s2 t3 ident (Some \<lparr>jb_name = Some a, jb_contact = Some ca\<rparr>)
        = ((200, AggregateBody agg3'), s3')
    \<and> map pj_name (agg_players agg3') = [a]"
proof -
  from post_matches_created [OF created] obtain row where
    s0: "s0 = s\<lparr>matches_id_seq := matches_id_seq s + 1, matches := matches s @ [row]\<rparr>"
    and row: "m_id row = matches_id_seq s + 1" "cr_id c = m_id row"
      "playersNeeded c = players_needed row"
    by blast
  define k where "k = m_id row"
  have idk: "int4_in (parseInt (JStr ident)) = Inr (m_id row)"
    using ident row(2) by simp
  have need: "players_needed row = 1" using quota row(3) by simp
  have ok0: "schema_ok s0"
    using schema_ok_post_matches [OF ok created] .
  have m0: "row \<in> set (matches s0)" by (simp add: s0)
  have c_s: "player_count s (m_id row) = 0"
    using no_player_of_fresh_match [OF ok, of "m_id row"] row(1) by simp
  then have none_s: "\<not> list_ex (\<lambda>p. match_id p = m_id row) (players s)"
    by (simp add: player_count_def list_ex_iff filter_empty_conv)
  have p0: "players s0 = players s" "players_id_seq s0 = players_id_seq s"
    by (simp_all add: s0)
  have c0: "player_count s0 (m_id row) = 0"
    using c_s by (simp add: player_count_def p0)
  have new0: "\<not> list_ex (\<lambda>p. match_id p = m_id row \<and> name p = x) (players s0)" for x
    using none_s by (auto simp: list_ex_iff p0)
  \<comment> \<open>A joins\<close>
  define s1 where "s1 = joined s0 t1 (m_id row) a ca"
  have j1: "post_join s0 t1 ident (Some \<lparr>jb_name = Some a, jb_contact = Some ca\<rparr>)
      = ((200, AggregateBody (aggregate_of s1 row)), s1)"
    unfolding s1_def
    using post_join_success [OF ok0 m0 idk a, of t1] c0 need new0 seq p0 by simp
  have ok1: "schema_ok s1"
    using schema_ok_post_join [OF ok0 j1] .
  have m1: "row \<in> set (matches s1)" by (simp add: s1_def joined_def m0)
  have pl1: "players s1 = players s @
      [\<lparr>p_id = players_id_seq s + 1, match_id = m_id row, name = a, contact = ca, joined_at = t1\<rparr>]"
    by (simp add: s1_def joined_def p0)
  have only: "filter (\<lambda>p. match_id p = m_id row) (players s) = []"
    using none_s by (rule filter_none_eq)
  have keep: "filter (\<lambda>p. match_id p = m_id row \<longrightarrow> name p \<noteq> x) (players s) = players s" for x
    using none_s by (auto simp: list_ex_iff filter_id_conv)
  have agg1: "map pj_name (agg_players (aggregate_of s1 row)) = [a]"
    by (simp add: agg_players_of to_player_json_def pl1 only)
  have c1: "player_count s1 (m_id row) = 1"
    by (simp add: player_count_def pl1 only)
  \<comment> \<open>B is refused\<close>
  have j2: "post_join s1 t2 ident (Some \<lparr>jb_name = Some b, jb_contact = Some cb\<rparr>)
      = ((400, ErrorBody ''Match is full!''), s1)"
    using join_full [OF ok1 m1 idk, of "\<lparr>jb_name = Some b, jb_contact = Some cb\<rparr>" t2]
      plain_textD(4) [OF b(1)] plain_textD(4) [OF b(2)] c1 need by simp
  \<comment> \<open>A leaves\<close>
  define s2 where "s2 = s1\<lparr>players := players s\<rparr>"
  have exA: "list_ex (\<lambda>p. match_id p = m_id row \<and> name p = a) (players s1)"
    by (simp add: pl1)
  have l3: "post_leave s1 ident (Some \<lparr>lb_name = Some a\<rparr>)
      = ((200, Message ''Left match successfully''), s2)"
    using post_leave_found [OF idk, of "\<lparr>lb_name = Some a\<rparr>" s1]
      plain_textD(4,5,6) [OF a(1)] exA
    by (simp add: s2_def pl1 keep)
  have ok2: "schema_ok s2"
    using schema_ok_post_leave [OF ok1 l3] .
  have m2: "row \<in> set (matches s2)" by (simp add: s2_def m1)
  have c2: "player_count s2 (m_id row) = 0"
    by (simp add: player_count_def s2_def only)
  have new2: "\<not> list_ex (\<lambda>p. match_id p = m_id row \<and> name p = x) (players s2)" for x
    using none_s by (auto simp: list_ex_iff s2_def)
  have seq2: "players_id_seq s2 + 1 < 2 ^ 31"
    using seq by (simp add: s2_def s1_def joined_def p0)
  have pl2: "players s2 = players s" by (simp add: s2_def)
  \<comment> \<open>B joins, and so could A\<close>
  have j4: "post_join s2 t3 ident (Some \<lparr>jb_name = Some x, jb_contact = Some cx\<rparr>)
      = ((200, AggregateBody (aggregate_of (joined s2 t3 (m_id row) x cx) row)),
         joined s2 t3 (m_id row) x cx)"
    and agg4: "map pj_name (agg_players (aggregate_of (joined s2 t3 (m_id row) x cx) row)) = [x]"
    if "plain_text x" "plain_text cx" for x cx
  proof -
    show "post_join s2 t3 ident (Some \<lparr>jb_name = Some x, jb_contact = Some cx\<rparr>)
      = ((200, AggregateBody (aggregate_of (joined s2 t3 (m_id row) x cx) row)),
         joined s2 t3 (m_id row) x cx)"
      using post_join_success [OF ok2 m2 idk that, of t3] c2 need new2 seq2 by simp
    show "map pj_name (agg_players (aggregate_of (joined s2 t3 (m_id row) x cx) row)) = [x]"
      by (simp add: agg_players_of to_player_json_def joined_def pl2 only)
  qed
  show ?thesis
    by (intro exI conjI)
      (rule j1 agg1 j2 l3 j4 [OF b] agg4 [OF b] j4 [OF a] agg4 [OF a])+
qed

text \<open>
  The scenario from the empty store, with the names A and B.
\<close>

theorem capacity_leave_scenario_witness:
  "schema_ok empty_store
   \<and> post_matches pg_demo empty_store 10 (Some demo_match) = ((200, Created demo_reply), store_created)
   \<and> playersNeeded demo_reply = 1
   \<and> int4_in (parseInt (JStr ''1'')) = Inr (cr_id demo_reply)
   \<and> plain_text ''A'' \<and> plain_text ''a@x'' \<and> plain_text ''B'' \<and> plain_text ''b@x''
   \<and> ''A'' \<noteq> ''B''
   \<and> players_id_seq empty_store + 2 < 2 ^ 31
   \<and> (\<exists>s1 s2 s3 s3' agg1 agg3 agg3'.
        post_join store_created 11 ''1'' (Some \<lparr>jb_name = Some ''A'', jb_contact = Some ''a@x''\<rparr>)
          = ((200, AggregateBody agg1), s1)
      \<and> map pj_name (agg_players agg1) = [''A'']
      \<and> post_join s1 12 ''1'' (Some \<lparr>jb_name = Some ''B'', jb_contact = Some ''b@x''\<rparr>)
          = ((400, ErrorBody ''Match is full!''), s1)
      \<and> post_leave s1 ''1'' (Some \<lparr>lb_name = Some ''A''\<rparr>)
          = ((200, Message ''Left match successfully''), s2)
      \<and> post_join s2 13 ''1'' (Some \<lparr>jb_name = Some ''B'', jb_contact = Some ''b@x''\<rparr>)
          = ((200, AggregateBody agg3), s3)
      \<and> map pj_name (agg_players agg3) = [''B'']
      \<and> post_join s2 13 ''1'' (Some \<lparr>jb_name = Some ''A'', jb_contact = Some ''a@x''\<rparr>)
          = ((200, AggregateBody agg3'), s3')
      \<and> map pj_name (agg_players agg3') = [''A''])"
proof -
  have ok: "schema_ok empty_store" using empty_store_ok by simp
  have q: "playersNeeded demo_reply = 1" by (simp add: demo_reply_def)
  have i: "int4_in (parseInt (JStr ''1'')) = Inr (cr_id demo_reply)"
    by (simp add: parse_one demo_reply_def)
  have ab: "''A'' \<noteq> ''B''" by simp
  have seq: "players_id_seq empty_store + 2 < 2 ^ 31" by (simp add: empty_store_def)
  note concl = capacity_leave_scenario [OF ok demo_created q i plain_text_demo(1-4) ab seq,
      of 11 12 13]
  show ?thesis
    by (intro conjI) (rule ok demo_created q i plain_text_demo(1-4) ab seq concl)+
qed

text \<open>
  Claim C5, as amended. For a request with a body: when location, date, playersNeeded,
  creator, creator.name or creator.contact is missing or falsy, the reply is 400
  \<^verbatim>\<open>Missing required fields\<close> and the store is unchanged. When they are all there but
  \<^verbatim>\<open>parseInt(playersNeeded)\<close> is \<^verbatim>\<open>NaN\<close> or no integer from 1 to 20, the store refuses
  the row and the reply is 500 \<^verbatim>\<open>Failed to create match\<close>, with no match or player row
  inserted. When the fields are valid (texts the columns take, a date and a time the
  store parses, a quota from 1 to 20, an id left in the sequence) the reply is the new
  match with the empty player list, and its row is appended to the table.
\<close>

theorem create_match_validation:
  "(missing_fields b \<longrightarrow>
      post_matches pg s now (Some b) = ((400, ErrorBody ''Missing required fields''), s))
   \<and> (\<not> missing_fields b
        \<and> (case parseInt (mb_playersNeeded b) of None \<Rightarrow> True | Some k \<Rightarrow> \<not> (0 < k \<and> k \<le> 20))
      \<longrightarrow> fst (post_matches pg s now (Some b)) = (500, ErrorBody ''Failed to create match'')
        \<and> matches (snd (post_matches pg s now (Some b))) = matches s
        \<and> players (snd (post_matches pg s now (Some b))) = players s)
   \<and> (b = \<lparr>mb_location = Some loc, mb_date = Some d, mb_time = t, mb_playersNeeded = pn,
             mb_creator = Some \<lparr>cb_name = Some cn, cb_contact = Some cc\<rparr>\<rparr>
        \<and> plain_text loc \<and> plain_text cn \<and> plain_text cc
        \<and> d \<noteq> [] \<and> pg_text d \<and> date_in pg d = Some dv
        \<and> (if falsy t then tv = None
            else pg_text (text_of t) \<and> map_option Some (time_in pg (text_of t)) = Some tv)
        \<and> truthy pn \<and> parseInt pn = Some k \<and> 0 < k \<and> k \<le> 20
        \<and> matches_id_seq s + 1 < 2 ^ 31
      \<longrightarrow> post_matches pg s now (Some b) =
         ((200, Created
             \<lparr>cr_id = matches_id_seq s + 1, cr_location = loc, cr_date = dv, cr_time = tv,
              playersNeeded = k, cr_creator = \<lparr>cj_name = cn, cj_contact = cc\<rparr>,
              cr_players = [], createdAt = now\<rparr>),
          s\<lparr>matches_id_seq := matches_id_seq s + 1,
            matches := matches s @
              [\<lparr>m_id = matches_id_seq s + 1, location = loc, date = dv, time = tv,
                players_needed = k, creator_name = cn, creator_contact = cc,
                created_at = now\<rparr>]\<rparr>))"
proof (intro conjI impI)
  assume "missing_fields b"
  then show "post_matches pg s now (Some b) = ((400, ErrorBody ''Missing required fields''), s)"
    by (rule post_matches_missing)
next
  assume h: "\<not> missing_fields b
        \<and> (case parseInt (mb_playersNeeded b) of None \<Rightarrow> True | Some k \<Rightarrow> \<not> (0 < k \<and> k \<le> 20))"
  then have h1: "\<not> missing_fields b"
    and h2: "case parseInt (mb_playersNeeded b) of None \<Rightarrow> True | Some k \<Rightarrow> \<not> (0 < k \<and> k \<le> 20)"
    by simp_all
  note r = post_matches_rejected [OF h1 h2, of pg s now]
  from r show "fst (post_matches pg s now (Some b)) = (500, ErrorBody ''Failed to create match'')"
    by simp
  from r show "matches (snd (post_matches pg s now (Some b))) = matches s" by simp
  from r show "players (snd (post_matches pg s now (Some b))) = players s" by simp
next
  assume h: "b = \<lparr>mb_location = Some loc, mb_date = Some d, mb_time = t, mb_playersNeeded = pn,
             mb_creator = Some \<lparr>cb_name = Some cn, cb_contact = Some cc\<rparr>\<rparr>
        \<and> plain_text loc \<and> plain_text cn \<and> plain_text cc
        \<and> d \<noteq> [] \<and> pg_text d \<and> date_in pg d = Some dv
        \<and> (if falsy t then tv = None
            else pg_text (text_of t) \<and> map_option Some (time_in pg (text_of t)) = Some tv)
        \<and> truthy pn \<and> parseInt pn = Some k \<and> 0 < k \<and> k \<le> 20
        \<and> matches_id_seq s + 1 < 2 ^ 31"
  show "post_matches pg s now (Some b) =
         ((200, Created
             \<lparr>cr_id = matches_id_seq s + 1, cr_location = loc, cr_date = dv, cr_time = tv,
              playersNeeded = k, cr_creator = \<lparr>cj_name = cn, cj_contact = cc\<rparr>,
              cr_players = [], createdAt = now\<rparr>),
          s\<lparr>matches_id_seq := matches_id_seq s + 1,
            matches := matches s @
              [\<lparr>m_id = matches_id_seq s + 1, location = loc, date = dv, time = tv,
                players_needed = k, creator_name = cn, creator_contact = cc,
                created_at = now\<rparr>]\<rparr>)"
    by (rule post_matches_success) (use h in blast)+
qed

text \<open>
  The three cases at work: no location, a quota of 21, and \<open>demo_match\<close>.
\<close>

theorem create_match_validation_witness:
  "missing_fields demo_match_nowhere
   \<and> post_matches pg_demo empty_store 10 (Some demo_match_nowhere)
       = ((400, ErrorBody ''Missing required fields''), empty_store)
   \<and> \<not> missing_fields demo_match_21
   \<and> (case parseInt (mb_playersNeeded demo_match_21) of None \<Rightarrow> True
       | Some k \<Rightarrow> \<not> (0 < k \<and> k \<le> 20))
   \<and> fst (post_matches pg_demo empty_store 10 (Some demo_match_21))
       = (500, ErrorBody ''Failed to create match'')
   \<and> matches (snd (post_matches pg_demo empty_store 10 (Some demo_match_21))) = matches empty_store
   \<and> plain_text ''Imphal Stadium'' \<and> plain_text ''Rahul'' \<and> plain_text ''+91''
   \<and> pg_text ''2026-02-25'' \<and> date_in pg_demo ''2026-02-25'' = Some ''2026-02-25''
   \<and> pg_text ''18:00'' \<and> time_in pg_demo ''18:00'' = Some ''18:00''
   \<and> truthy (JNum 1) \<and> parseInt (JNum 1) = Some 1
   \<and> matches_id_seq empty_store + 1 < 2 ^ 31
   \<and> post_matches pg_demo empty_store 10 (Some demo_match) = ((200, Created demo_reply), store_created)"
proof -
  note inst0 = create_match_validation [of demo_match_nowhere pg_demo empty_store 10]
  note inst1 = create_match_validation [of demo_match_21 pg_demo empty_store 10]
  note inst2 = create_match_validation [of demo_match pg_demo empty_store 10
      "''Imphal Stadium''" "''2026-02-25''" "Some ''18:00''" "JNum 1" "''Rahul''" "''+91''"
      "''2026-02-25''" "Some ''18:00''" 1]
  have m0: "missing_fields demo_match_nowhere"
    by (simp add: missing_fields_def demo_match_nowhere_def demo_match_def falsy_def)
  have m1: "\<not> missing_fields demo_match_21"
    by (simp add: missing_fields_def demo_match_21_def demo_match_def falsy_def)
  have p1: "case parseInt (mb_playersNeeded demo_match_21) of None \<Rightarrow> True
       | Some k \<Rightarrow> \<not> (0 < k \<and> k \<le> 20)"
    by (simp add: demo_match_21_def parseInt_def)
  have b: "demo_match = \<lparr>mb_location = Some ''Imphal Stadium'', mb_date = Some ''2026-02-25'',
      mb_time = Some ''18:00'', mb_playersNeeded = JNum 1,
      mb_creator = Some \<lparr>cb_name = Some ''Rahul'', cb_contact = Some ''+91''\<rparr>\<rparr>"
    by (simp add: demo_match_def)
  have d: "pg_text ''2026-02-25''" "date_in pg_demo ''2026-02-25'' = Some ''2026-02-25''"
    "''2026-02-25'' \<noteq> []"
    by (simp_all add: pg_text_def pg_demo_def)
  have t: "pg_text ''18:00''" "time_in pg_demo ''18:00'' = Some ''18:00''"
    by (simp_all add: pg_text_def pg_demo_def)
  then have t': "if falsy (Some ''18:00'') then Some ''18:00'' = None
       else pg_text (text_of (Some ''18:00''))
         \<and> map_option Some (time_in pg_demo (text_of (Some ''18:00''))) = Some (Some ''18:00'')"
    by (simp add: falsy_def text_of_def)
  have n: "truthy (JNum 1)" "parseInt (JNum 1) = Some 1" "(0 :: int) < 1" "(1 :: int) \<le> 20"
    by (simp_all add: parseInt_def)
  have seq: "matches_id_seq empty_store + 1 < 2 ^ 31" by (simp add: empty_store_def)
  from inst0 m0 have 1: "post_matches pg_demo empty_store 10 (Some demo_match_nowhere)
       = ((400, ErrorBody ''Missing required fields''), empty_store)"
    by blast
  from inst1 m1 p1 have 2: "fst (post_matches pg_demo empty_store 10 (Some demo_match_21))
       = (500, ErrorBody ''Failed to create match'')"
    and 3: "matches (snd (post_matches pg_demo empty_store 10 (Some demo_match_21))) = matches empty_store"
    by blast+
  from inst2 b plain_text_demo(5-7) d t' n seq
  have "post_matches pg_demo empty_store 10 (Some demo_match) =
     ((200, Created
         \<lparr>cr_id = matches_id_seq empty_store + 1, cr_location = ''Imphal Stadium'',
          cr_date = ''2026-02-25'', cr_time = Some ''18:00'',
          playersNeeded = 1, cr_creator = \<lparr>cj_name = ''Rahul'', cj_contact = ''+91''\<rparr>,
          cr_players = [], createdAt = 10\<rparr>),
      empty_store\<lparr>matches_id_seq := matches_id_seq empty_store + 1,
        matches := matches empty_store @
          [\<lparr>m_id = matches_id_seq empty_store + 1, location = ''Imphal Stadium'',
            date = ''2026-02-25'', time = Some ''18:00'',
            players_needed = 1, creator_name = ''Rahul'', creator_contact = ''+91'',
            created_at = 10\<rparr>]\<rparr>)"
    by blast
  then have 4: "post_matches pg_demo empty_store 10 (Some demo_match)
      = ((200, Created demo_reply), store_created)"
    by (simp add: demo_reply_def demo_defs)
  show ?thesis
    by (intro conjI) (rule m0 1 m1 p1 2 3 plain_text_demo(5-7) d(1,2) t n(1,2) seq 4)+
qed

text \<open>
  Claim C5 as it was stated fails: a quota of 21 with every field present is answered
  500, not 400.
\<close>

theorem create_match_counterexample:
  "\<not> missing_fields demo_match_21
   \<and> parseInt (mb_playersNeeded demo_match_21) = Some 21
   \<and> fst (post_matches pg_demo empty_store 10 (Some demo_match_21))
       = (500, ErrorBody ''Failed to create match'')
   \<and> fst (fst (post_matches pg_demo empty_store 10 (Some demo_match_21))) \<noteq> 400"
  by (simp add: eval_defs demo_defs demo_match_21_def missing_fields_def)

text \<open>
  Claim C6. For a path parameter that parses to an INTEGER id, on a store that keeps its
  schema: with no match of that id the reply is 404 \<^verbatim>\<open>Match not found\<close> and the store is
  unchanged; with such a match the reply is the success message, the match row and
  every player row of that match are gone and every other row stays. Afterwards no
  match and no player row carries the id, and every player row references a match.
\<close>

theorem delete_match_cascades:
  assumes ok: "schema_ok s" and k: "int4_in (parseInt (JStr ident)) = Inr k"
  shows "(\<not> list_ex (\<lambda>m. m_id m = k) (matches s)
          \<longrightarrow> delete_match s ident = ((404, ErrorBody ''Match not found''), s))
     \<and> (list_ex (\<lambda>m. m_id m = k) (matches s)
          \<longrightarrow> fst (delete_match s ident) = (200, Message ''Match deleted successfully'')
            \<and> matches (snd (delete_match s ident)) = filter (\<lambda>m. m_id m \<noteq> k) (matches s)
            \<and> players (snd (delete_match s ident)) = filter (\<lambda>p. match_id p \<noteq> k) (players s))
     \<and> \<not> list_ex (\<lambda>m. m_id m = k) (matches (snd (delete_match s ident)))
     \<and> \<not> list_ex (\<lambda>p. match_id p = k) (players (snd (delete_match s ident)))
     \<and> list_all (\<lambda>p. list_ex (\<lambda>m. m_id m = match_id p) (matches (snd (delete_match s ident))))
          (players (snd (delete_match s ident)))"
proof -
  have ok': "schema_ok (snd (delete_match s ident))"
    using schema_ok_delete_match_handler [OF ok] by (metis prod.collapse)
  then have fk: "list_all (\<lambda>p. list_ex (\<lambda>m. m_id m = match_id p) (matches (snd (delete_match s ident))))
          (players (snd (delete_match s ident)))"
    by (simp add: schema_ok_def)
  show ?thesis
  proof (cases "list_ex (\<lambda>m. m_id m = k) (matches s)")
    case True
    from fk True show ?thesis
      by (simp add: delete_match_found [OF k True] list_ex_iff)
  next
    case False
    from fk False no_orphans [OF ok False] show ?thesis
      by (simp add: delete_match_not_found [OF ok k False])
  qed
qed

text \<open>
  Deleting the example match with its player, and deleting in the empty store.
\<close>

theorem delete_match_cascades_witness:
  "schema_ok store_joined \<and> int4_in (parseInt (JStr ''1'')) = Inr 1
   \<and> list_ex (\<lambda>m. m_id m = 1) (matches store_joined)
   \<and> players store_joined \<noteq> []
   \<and> fst (delete_match store_joined ''1'') = (200, Message ''Match deleted successfully'')
   \<and> matches (snd (delete_match store_joined ''1'')) = []
   \<and> players (snd (delete_match store_joined ''1'')) = []
   \<and> schema_ok empty_store \<and> int4_in (parseInt (JStr ''1'')) = Inr 1
   \<and> \<not> list_ex (\<lambda>m. m_id m = 1) (matches empty_store)
   \<and> delete_match empty_store ''1'' = ((404, ErrorBody ''Match not found''), empty_store)"
proof -
  have ex: "list_ex (\<lambda>m. m_id m = 1) (matches store_joined)" "players store_joined \<noteq> []"
    by (simp_all add: demo_defs)
  have nex: "\<not> list_ex (\<lambda>m. m_id m = 1) (matches empty_store)"
    by (simp add: empty_store_def)
  have ok0: "schema_ok empty_store" using empty_store_ok by simp
  note in1 = delete_match_cascades [OF schema_ok_store_joined parse_one]
  note in0 = delete_match_cascades [OF ok0 parse_one]
  from in1 ex have 1: "fst (delete_match store_joined ''1'') = (200, Message ''Match deleted successfully'')"
    and 2: "matches (snd (delete_match store_joined ''1'')) = []"
    and 3: "players (snd (delete_match store_joined ''1'')) = []"
    by (simp_all add: demo_defs)
  from in0 nex have 4: "delete_match empty_store ''1'' = ((404, ErrorBody ''Match not found''), empty_store)"
    by simp
  show ?thesis
    by (intro conjI) (rule schema_ok_store_joined parse_one ex 1 2 3 ok0 nex 4)+
qed

text \<open>
  Claim C7. For a path parameter that parses to an INTEGER id and a name that is present
  and a text of the store, on a store that keeps its schema: the reply is 404
  \<^verbatim>\<open>Player not found in this match\<close> exactly when no player row has that match id and
  name, and then the store is unchanged; otherwise the reply is the success message, the
  matches are unchanged, the player rows are the former ones without the rows of
  that match id and name, and that is exactly one row less.
\<close>

theorem leave_deletes_exactly_that_row:
  assumes ok: "schema_ok s"
    and k: "int4_in (parseInt (JStr ident)) = Inr k"
    and b: "\<not> falsy (lb_name b)" and nm: "pg_text (text_of (lb_name b))"
  shows "(fst (post_leave s ident (Some b)) = (404, ErrorBody ''Player not found in this match'')
          \<longleftrightarrow> \<not> list_ex (\<lambda>p. match_id p = k \<and> name p = text_of (lb_name b)) (players s))
     \<and> (\<not> list_ex (\<lambda>p. match_id p = k \<and> name p = text_of (lb_name b)) (players s)
          \<longrightarrow> snd (post_leave s ident (Some b)) = s)
     \<and> (list_ex (\<lambda>p. match_id p = k \<and> name p = text_of (lb_name b)) (players s)
          \<longrightarrow> fst (post_leave s ident (Some b)) = (200, Message ''Left match successfully'')
            \<and> matches (snd (post_leave s ident (Some b))) = matches s
            \<and> players (snd (post_leave s ident (Some b)))
                = filter (\<lambda>p. \<not> (match_id p = k \<and> name p = text_of (lb_name b))) (players s)
            \<and> length (players (snd (post_leave s ident (Some b)))) + 1 = length (players s))"
proof (cases "list_ex (\<lambda>p. match_id p = k \<and> name p = text_of (lb_name b)) (players s)")
  case True
  then obtain p where p: "p \<in> set (players s)" "match_id p = k" "name p = text_of (lb_name b)"
    by (auto simp: list_ex_iff)
  from ok have "distinct (map (\<lambda>p. (match_id p, name p)) (players s))"
    by (simp add: schema_ok_def)
  from filter_by_key [OF this p(1)] p(2,3)
  have one: "filter (\<lambda>q. match_id q = k \<and> name q = text_of (lb_name b)) (players s) = [p]"
    by simp
  have "length (filter (\<lambda>q. match_id q = k \<and> name q = text_of (lb_name b)) (players s))
      + length (filter (\<lambda>q. \<not> (match_id q = k \<and> name q = text_of (lb_name b))) (players s))
      = length (players s)"
    by (rule sum_length_filter_compl)
  with one have len: "length (filter (\<lambda>q. \<not> (match_id q = k \<and> name q = text_of (lb_name b))) (players s)) + 1
      = length (players s)"
    by simp
  from True len show ?thesis
    by (simp add: post_leave_found [OF k b nm True])
next
  case False
  then show ?thesis
    by (simp add: post_leave_not_found [OF k b nm False])
qed

text \<open>
  A leaves the example match; B, who never joined, is not found.
\<close>

theorem leave_deletes_exactly_that_row_witness:
  "schema_ok store_joined \<and> int4_in (parseInt (JStr ''1'')) = Inr 1
   \<and> \<not> falsy (lb_name leave_A) \<and> pg_text (text_of (lb_name leave_A))
   \<and> list_ex (\<lambda>p. match_id p = 1 \<and> name p = ''A'') (players store_joined)
   \<and> fst (post_leave store_joined ''1'' (Some leave_A)) = (200, Message ''Left match successfully'')
   \<and> players (snd (post_leave store_joined ''1'' (Some leave_A))) = []
   \<and> \<not> list_ex (\<lambda>p. match_id p = 1 \<and> name p = ''B'') (players store_joined)
   \<and> post_leave store_joined ''1'' (Some leave_B)
       = ((404, ErrorBody ''Player not found in this match''), store_joined)"
proof -
  have a: "\<not> falsy (lb_name leave_A)" "pg_text (text_of (lb_name leave_A))"
    "text_of (lb_name leave_A) = ''A''"
    by (simp_all add: leave_A_def falsy_def text_of_def pg_text_def)
  have b: "\<not> falsy (lb_name leave_B)" "pg_text (text_of (lb_name leave_B))"
    "text_of (lb_name leave_B) = ''B''"
    by (simp_all add: leave_B_def falsy_def text_of_def pg_text_def)
  have exA: "list_ex (\<lambda>p. match_id p = 1 \<and> name p = ''A'') (players store_joined)"
    and exB: "\<not> list_ex (\<lambda>p. match_id p = 1 \<and> name p = ''B'') (players store_joined)"
    by (simp_all add: store_joined_def)
  note inA = leave_deletes_exactly_that_row [OF schema_ok_store_joined parse_one a(1,2), unfolded a(3)]
  note inB = leave_deletes_exactly_that_row [OF schema_ok_store_joined parse_one b(1,2), unfolded b(3)]
  from inA exA have 1: "fst (post_leave store_joined ''1'' (Some leave_A)) = (200, Message ''Left match successfully'')"
    and 2: "players (snd (post_leave store_joined ''1'' (Some leave_A))) = []"
    by (simp_all add: store_joined_def)
  from inB exB have "fst (post_leave store_joined ''1'' (Some leave_B))
       = (404, ErrorBody ''Player not found in this match'')"
    and "snd (post_leave store_joined ''1'' (Some leave_B)) = store_joined"
    by simp_all
  then have 3: "post_leave store_joined ''1'' (Some leave_B)
       = ((404, ErrorBody ''Player not found in this match''), store_joined)"
    by (simp add: prod_eq_iff)
  show ?thesis
    by (intro conjI) (rule schema_ok_store_joined parse_one a(1) a(2) exA exB 1 2 3)+
qed

text \<open>
  Claim C8. \<^verbatim>\<open>GET /matches\<close> answers 200 with one aggregate for each match row, newest
  \<^verbatim>\<open>created_at\<close> first; each aggregate carries its creator's name and contact and the
  players of its match, every one of them, in the order of \<^verbatim>\<open>joined_at\<close>. A match without
  players has the empty list, in \<^verbatim>\<open>GET /matches\<close> as in \<^verbatim>\<open>GET /matches/:id\<close>, and on
  the empty store the answer is the empty array.
\<close>

theorem list_matches_newest_first:
  "get_matches s = (200, Aggregates (q_aggregates s))
   \<and> mset (map agg_row (q_aggregates s)) = mset (matches s)
   \<and> sorted_wrt (\<lambda>a a'. created_at (agg_row a') \<le> created_at (agg_row a)) (q_aggregates s)
   \<and> (\<forall>a\<in>set (q_aggregates s).
         creator a = \<lparr>cj_name = creator_name (agg_row a), cj_contact = creator_contact (agg_row a)\<rparr>
         \<and> sorted (map joinedAt (agg_players a))
         \<and> mset (agg_players a)
             = mset (map to_player_json
                      (filter (\<lambda>p. match_id p = m_id (agg_row a)) (players s)))
         \<and> (player_count s (m_id (agg_row a)) = 0 \<longrightarrow> agg_players a = []))
   \<and> (\<forall>m\<in>set (matches s). \<forall>ident.
         schema_ok s \<and> int4_in (parseInt (JStr ident)) = Inr (m_id m)
         \<and> player_count s (m_id m) = 0
         \<longrightarrow> (\<exists>a. get_match s ident = (200, AggregateBody a) \<and> agg_row a = m
                \<and> agg_players a = []))
   \<and> get_matches empty_store = (200, Aggregates [])"
proof -
  have 1: "get_matches s = (200, Aggregates (q_aggregates s))"
    by (simp add: get_matches_def)
  have 4: "\<forall>a\<in>set (q_aggregates s).
         creator a = \<lparr>cj_name = creator_name (agg_row a), cj_contact = creator_contact (agg_row a)\<rparr>
         \<and> sorted (map joinedAt (agg_players a))
         \<and> mset (agg_players a)
             = mset (map to_player_json
                      (filter (\<lambda>p. match_id p = m_id (agg_row a)) (players s)))
         \<and> (player_count s (m_id (agg_row a)) = 0 \<longrightarrow> agg_players a = [])"
  proof
    fix a assume "a \<in> set (q_aggregates s)"
    then obtain m where a: "a = aggregate_of s m"
      by (auto simp: q_aggregates_def)
    show "creator a = \<lparr>cj_name = creator_name (agg_row a), cj_contact = creator_contact (agg_row a)\<rparr>
         \<and> sorted (map joinedAt (agg_players a))
         \<and> mset (agg_players a)
             = mset (map to_player_json
                      (filter (\<lambda>p. match_id p = m_id (agg_row a)) (players s)))
         \<and> (player_count s (m_id (agg_row a)) = 0 \<longrightarrow> agg_players a = [])"
      unfolding a agg_row_of
      using aggregate_facts [of s m] by blast
  qed
  have 5: "\<forall>m\<in>set (matches s). \<forall>ident.
         schema_ok s \<and> int4_in (parseInt (JStr ident)) = Inr (m_id m)
         \<and> player_count s (m_id m) = 0
         \<longrightarrow> (\<exists>a. get_match s ident = (200, AggregateBody a) \<and> agg_row a = m
                \<and> agg_players a = [])"
  proof (intro ballI allI impI)
    fix m ident
    assume m: "m \<in> set (matches s)"
      and h: "schema_ok s \<and> int4_in (parseInt (JStr ident)) = Inr (m_id m)
         \<and> player_count s (m_id m) = 0"
    then have ok: "schema_ok s" and k: "int4_in (parseInt (JStr ident)) = Inr (m_id m)"
      and c: "player_count s (m_id m) = 0"
      by simp_all
    have "get_match s ident = (200, AggregateBody (aggregate_of s m))"
      by (simp add: get_match_def q_aggregate_one [OF ok m k])
    with aggregate_facts(4) [OF c]
    show "\<exists>a. get_match s ident = (200, AggregateBody a) \<and> agg_row a = m \<and> agg_players a = []"
      by simp
  qed
  have 6: "get_matches empty_store = (200, Aggregates [])"
    by (simp add: get_matches_def q_aggregates_def empty_store_def)
  show ?thesis
    by (intro conjI) (rule 1 every_match_listed newest_first 4 5 6)+
qed

text \<open>
  The list of the example store, and the detail of the match before anyone joined.
\<close>

theorem list_matches_newest_first_witness:
  "q_aggregates store_joined = [demo_agg]
   \<and> get_matches store_joined = (200, Aggregates [demo_agg])
   \<and> creator demo_agg = \<lparr>cj_name = ''Rahul'', cj_contact = ''+91''\<rparr>
   \<and> mset (agg_players demo_agg)
       = mset (map to_player_json (filter (\<lambda>p. match_id p = 1) (players store_joined)))
   \<and> matches store_created = [demo_row]
   \<and> schema_ok store_created \<and> int4_in (parseInt (JStr ''1'')) = Inr (m_id demo_row)
   \<and> player_count store_created (m_id demo_row) = 0
   \<and> (\<exists>a. get_match store_created ''1'' = (200, AggregateBody a) \<and> agg_row a = demo_row
          \<and> agg_players a = [])"
proof -
  note inst1 = list_matches_newest_first [of store_joined, unfolded demo_aggregates]
  note inst0 = list_matches_newest_first [of store_created]
  from inst1 have 1: "get_matches store_joined = (200, Aggregates [demo_agg])"
    by blast
  from inst1 have "creator demo_agg = \<lparr>cj_name = creator_name (agg_row demo_agg),
      cj_contact = creator_contact (agg_row demo_agg)\<rparr>"
    and "mset (agg_players demo_agg)
       = mset (map to_player_json (filter (\<lambda>p. match_id p = m_id (agg_row demo_agg))
            (players store_joined)))"
    by simp_all
  then have 2: "creator demo_agg = \<lparr>cj_name = ''Rahul'', cj_contact = ''+91''\<rparr>"
    and 3: "mset (agg_players demo_agg)
       = mset (map to_player_json (filter (\<lambda>p. match_id p = 1) (players store_joined)))"
    by (simp_all add: demo_agg_def demo_row_def)
  have m: "matches store_created = [demo_row]" by (simp add: store_created_def)
  have i: "int4_in (parseInt (JStr ''1'')) = Inr (m_id demo_row)"
    by (simp add: parse_one demo_row_def)
  have c: "player_count store_created (m_id demo_row) = 0"
    by (simp add: player_count_def store_created_def)
  from inst0 have "\<forall>m\<in>set (matches store_created). \<forall>ident.
         schema_ok store_created \<and> int4_in (parseInt (JStr ident)) = Inr (m_id m)
         \<and> player_count store_created (m_id m) = 0
         \<longrightarrow> (\<exists>a. get_match store_created ident = (200, AggregateBody a) \<and> agg_row a = m
                \<and> agg_players a = [])"
    by blast
  with m schema_ok_store_created i c
  have 4: "\<exists>a. get_match store_created ''1'' = (200, AggregateBody a) \<and> agg_row a = demo_row
          \<and> agg_players a = []"
    by simp
  show ?thesis
    by (intro conjI) (rule demo_aggregates 1 2 3 m schema_ok_store_created i c 4)+
qed

text \<open>
  Claim C9. After a logout with an authorization header, \<^verbatim>\<open>GET /auth/me\<close> with a
  header that carries the same token is answered 401; the logout itself answers
  success, leaves the users alone and unmaps no other token. A header whose token is
  mapped to the non-zero id of a user row is answered 200 with the first such row; a
  header whose token is not mapped is answered 401.
\<close>

theorem logout_invalidates_token:
  "(bearer_token h' = bearer_token h \<longrightarrow> fst (get_me (snd (post_logout a h)) h') = 401)
   \<and> fst (post_logout a h) = (200, SuccessBody)
   \<and> users (snd (post_logout a h)) = users a
   \<and> (\<forall>tok. tok \<noteq> text_of (bearer_token h) \<longrightarrow>
         sessions (snd (post_logout a h)) tok = sessions a tok)
   \<and> (\<not> falsy (bearer_token h) \<and> sessions a (text_of (bearer_token h)) = Some uid
        \<and> uid \<noteq> 0 \<and> filter (\<lambda>u. u_id u = uid) (users a) = u # rest
      \<longrightarrow> get_me a h = (200, UserBody u))
   \<and> (sessions a (text_of (bearer_token h)) = None \<longrightarrow> fst (get_me a h) = 401)"
proof (intro conjI impI allI)
  assume same: "bearer_token h' = bearer_token h"
  show "fst (get_me (snd (post_logout a h)) h') = 401"
  proof (cases "falsy (bearer_token h)")
    case True
    with same show ?thesis by (simp add: get_me_no_token)
  next
    case False
    from logout_unmaps [OF False, of a] same show ?thesis
      by (simp add: get_me_unmapped)
  qed
next
  show "fst (post_logout a h) = (200, SuccessBody)"
    by (simp add: post_logout_def Let_def)
next
  show "users (snd (post_logout a h)) = users a"
    by (simp add: post_logout_def Let_def)
next
  fix tok assume "tok \<noteq> text_of (bearer_token h)"
  then show "sessions (snd (post_logout a h)) tok = sessions a tok"
    by (simp add: post_logout_def Let_def)
next
  assume "\<not> falsy (bearer_token h) \<and> sessions a (text_of (bearer_token h)) = Some uid
        \<and> uid \<noteq> 0 \<and> filter (\<lambda>u. u_id u = uid) (users a) = u # rest"
  then show "get_me a h = (200, UserBody u)"
    by (simp add: get_me_def getUserFromToken_def Let_def)
next
  assume "sessions a (text_of (bearer_token h)) = None"
  then show "fst (get_me a h) = 401"
    by (rule get_me_unmapped)
qed

text \<open>
  The session of the example user before and after the logout, and an unknown token.
\<close>

theorem logout_invalidates_token_witness:
  "\<not> falsy (bearer_token (Some ''Bearer session_k3''))
   \<and> sessions demo_auth (text_of (bearer_token (Some ''Bearer session_k3''))) = Some 7
   \<and> (7 :: int) \<noteq> 0
   \<and> filter (\<lambda>u. u_id u = 7) (users demo_auth) = demo_user # []
   \<and> get_me demo_auth (Some ''Bearer session_k3'') = (200, UserBody demo_user)
   \<and> fst (get_me (snd (post_logout demo_auth (Some ''Bearer session_k3'')))
            (Some ''Bearer session_k3'')) = 401
   \<and> sessions demo_auth ''session_zz'' = None
   \<and> fst (get_me demo_auth (Some ''Bearer session_zz'')) = 401"
proof -
  have t: "\<not> falsy (bearer_token (Some ''Bearer session_k3''))"
    by (simp add: demo_token falsy_def)
  have m: "sessions demo_auth (text_of (bearer_token (Some ''Bearer session_k3''))) = Some 7"
    by (simp add: demo_token text_of_def demo_auth_def)
  have n: "(7 :: int) \<noteq> 0" by simp
  have f: "filter (\<lambda>u. u_id u = 7) (users demo_auth) = demo_user # []"
    by (simp add: demo_auth_def demo_user_def)
  have z: "sessions demo_auth (text_of (bearer_token (Some ''Bearer session_zz''))) = None"
    by (simp add: bearer_token_def text_of_def demo_auth_def)
  then have z': "sessions demo_auth ''session_zz'' = None"
    by (simp add: bearer_token_def text_of_def)
  note inst = logout_invalidates_token [of "Some ''Bearer session_k3''" "Some ''Bearer session_k3''"
      demo_auth 7 demo_user "[]"]
  note inst2 = logout_invalidates_token [of "Some ''Bearer session_zz''" "Some ''Bearer session_zz''"
      demo_auth 7 demo_user "[]"]
  from inst t m n f have 1: "get_me demo_auth (Some ''Bearer session_k3'') = (200, UserBody demo_user)"
    by blast
  from inst have 2: "fst (get_me (snd (post_logout demo_auth (Some ''Bearer session_k3'')))
            (Some ''Bearer session_k3'')) = 401"
    by blast
  from inst2 z have 3: "fst (get_me demo_auth (Some ''Bearer session_zz'')) = 401"
    by blast
  show ?thesis
    by (intro conjI) (rule t m n f 1 2 z' 3)+
qed




end
